theory Spec2Isabelle
  imports Main "HOL-Library.Sublist"
begin

section \<open>JavaScript values\<close>

text \<open>
  The provider is JavaScript: record contents, backend payloads and lookup results are
  dynamically typed. The values that reach the code under study are modelled by
  \<open>jsval\<close>; fields whose type never varies are typed (\<open>string option\<close> for a
  string property that may be \<^verbatim>\<open>undefined\<close>, \<open>int option\<close> for a number that
  may be \<^verbatim>\<open>undefined\<close>). An object is its property list; the first binding of a
  key is the one read.
\<close>

datatype jsval =
    JUndefined
  | JNull
  | JNumber int
  | JString string
  | JObject "(string \<times> jsval) list"

text \<open>Truthiness, as \<^verbatim>\<open>if (x)\<close>, \<^verbatim>\<open>!x\<close>, \<^verbatim>\<open>x || y\<close> and \<^verbatim>\<open>x && y\<close> read it.\<close>

fun truthy :: "jsval \<Rightarrow> bool" where
  "truthy JUndefined = False"
| "truthy JNull = False"
| "truthy (JNumber n) = (n \<noteq> 0)"
| "truthy (JString s) = (s \<noteq> [])"
| "truthy (JObject fs) = True"

text \<open>\<^verbatim>\<open>a || b\<close>: the first operand when it is truthy, else the second.\<close>

definition js_or :: "jsval \<Rightarrow> jsval \<Rightarrow> jsval" where
  "js_or a b = (if truthy a then a else b)"

text \<open>
  \<^verbatim>\<open>v?.k\<close>: the property \<open>k\<close> of an object; \<^verbatim>\<open>undefined\<close> on
  \<^verbatim>\<open>undefined\<close> and \<^verbatim>\<open>null\<close> (the optional chain), and on a string or a
  number, which have no such own property.
\<close>

fun get_prop :: "jsval \<Rightarrow> string \<Rightarrow> jsval" where
  "get_prop (JObject fs) k = (case map_of fs k of Some v \<Rightarrow> v | None \<Rightarrow> JUndefined)"
| "get_prop v k = JUndefined"

text \<open>
  \<^verbatim>\<open>a === b\<close>. Two objects are identical only when they are the same reference; the
  objects compared by the provider come from different places (a parsed backend response
  and the caller's specification), so an object is identical to nothing here.
\<close>

fun strict_eq :: "jsval \<Rightarrow> jsval \<Rightarrow> bool" where
  "strict_eq JUndefined JUndefined = True"
| "strict_eq JNull JNull = True"
| "strict_eq (JNumber a) (JNumber b) = (a = b)"
| "strict_eq (JString a) (JString b) = (a = b)"
| "strict_eq a b = False"

text \<open>Decimal digits of a natural number, for numbers inside template literals.\<close>

function string_of_nat :: "nat \<Rightarrow> string" where
  "string_of_nat n =
     (if n < 10 then [''0123456789'' ! n]
      else string_of_nat (n div 10) @ [''0123456789'' ! (n mod 10)])"
  by pat_completeness auto
termination
  by (relation "measure id") auto

declare string_of_nat.simps [simp del]

text \<open>A value inside a template literal \<^verbatim>\<open>`${v}`\<close>.\<close>

fun to_string :: "jsval \<Rightarrow> string" where
  "to_string JUndefined = ''undefined''"
| "to_string JNull = ''null''"
| "to_string (JNumber n) =
     (if n < 0 then ''-'' @ string_of_nat (nat (- n)) else string_of_nat (nat n))"
| "to_string (JString s) = s"
| "to_string (JObject fs) = ''[object Object]''"

fun str_opt :: "string option \<Rightarrow> string" where
  "str_opt None = ''undefined''"
| "str_opt (Some s) = s"

text \<open>\<^verbatim>\<open>!s\<close> for a string property: true when it is \<^verbatim>\<open>undefined\<close> or empty.\<close>

fun missing :: "string option \<Rightarrow> bool" where
  "missing None = True"
| "missing (Some s) = (s = [])"

text \<open>A thrown \<^verbatim>\<open>Error\<close> with its message.\<close>

datatype error = Error string

fun message :: "error \<Rightarrow> string" where
  "message (Error m) = m"

section \<open>Records\<close>

text \<open>
  A record as the Technitium API returns it: \<^verbatim>\<open>{name, type, ttl, rData}\<close>.
\<close>

record tech_record =
  t_name :: "string option"
  t_type :: "string option"
  t_ttl :: "int option"
  t_rData :: jsval

text \<open>
  A canonical record. The same shape serves for a cached record (built by
  \<open>convertToStandardFormat\<close>, with \<open>id\<close> and \<open>_original\<close>) and for a desired
  record specification handed to the provider (with \<open>priority\<close>, \<open>zone\<close> and the
  \<open>manage\<close> flag of the specification where given).
\<close>

record dns_record =
  r_id :: "string option"
  r_type :: "string option"
  r_name :: "string option"
  r_content :: jsval
  r_ttl :: "int option"
  r_priority :: "int option"
  r_zone :: "string option"
  r_manage :: "bool option"
  r_original :: "tech_record option"

text \<open>
  The parameters of an add or delete request: the object built by
  \<open>convertToTechnitiumFormat\<close>, to which the provider adds \<open>token\<close>. A key that
  the converter does not set reads \<^verbatim>\<open>undefined\<close>.
\<close>

record wire_params =
  w_zone :: "string option"
  w_domain :: "string option"
  w_type :: "string option"
  w_ttl :: int
  w_ipAddress :: jsval
  w_cname :: jsval
  w_text :: jsval
  w_exchange :: jsval
  w_preference :: "int option"
  w_token :: "string option"

section \<open>converter.js\<close>

definition convertToTechnitiumFormat :: "dns_record \<Rightarrow> string option \<Rightarrow> wire_params" where
  "convertToTechnitiumFormat record zone =
     (let params = \<lparr> w_zone = zone,
                      w_domain = r_name record,
                      w_type = r_type record,
                      w_ttl = (case r_ttl record of
                                 Some n \<Rightarrow> if n \<noteq> 0 then n else 3600
                               | None \<Rightarrow> 3600),
                      w_ipAddress = JUndefined, w_cname = JUndefined, w_text = JUndefined,
                      w_exchange = JUndefined, w_preference = None, w_token = None \<rparr>
      in if r_type record = Some ''A'' \<or> r_type record = Some ''AAAA''
           then params\<lparr> w_ipAddress := r_content record \<rparr>
         else if r_type record = Some ''CNAME'' \<or> r_type record = Some ''ANAME''
           then params\<lparr> w_cname := r_content record \<rparr>
         else if r_type record = Some ''TXT''
           then params\<lparr> w_text := r_content record \<rparr>
         else if r_type record = Some ''MX''
           then params\<lparr> w_exchange := r_content record,
                         w_preference := Some (case r_priority record of
                                                 Some p \<Rightarrow> if p \<noteq> 0 then p else 10
                                               | None \<Rightarrow> 10) \<rparr>
         else params)"

definition convertToStandardFormat :: "tech_record \<Rightarrow> dns_record" where
  "convertToStandardFormat techRecord =
     \<lparr> r_id = Some (str_opt (t_name techRecord) @ ''-'' @ str_opt (t_type techRecord) @ ''-'' @
                     to_string (js_or (js_or (get_prop (t_rData techRecord) ''ipAddress'')
                                             (get_prop (t_rData techRecord) ''cname''))
                                      (JString ''data''))),
       r_type = t_type techRecord,
       r_name = t_name techRecord,
       r_content = js_or (js_or (js_or (get_prop (t_rData techRecord) ''ipAddress'')
                                       (get_prop (t_rData techRecord) ''cname''))
                                (get_prop (t_rData techRecord) ''text''))
                         (t_rData techRecord),
       r_ttl = t_ttl techRecord,
       r_priority = None,
       r_zone = None,
       r_manage = None,
       r_original = Some techRecord \<rparr>"

section \<open>validator.js\<close>

text \<open>
  \<open>validateRecord\<close> as exported by validator.js and called by the provider's
  \<open>createRecord\<close>. It throws or returns nothing; the model returns the warnings it
  logged (\<^verbatim>\<open>logger.warn\<close>) together with the outcome. \<^verbatim>\<open>record.ttl && record.ttl < 0\<close>
  holds for a negative number only.
\<close>

definition validateRecord :: "dns_record \<Rightarrow> string list \<times> (error + unit)" where
  "validateRecord record =
     (if missing (r_type record) then ([], Inl (Error ''Record type is required''))
      else if missing (r_name record) then ([], Inl (Error ''Record name is required''))
      else if \<not> truthy (r_content record) then ([], Inl (Error ''Record content is required''))
      else
        let warnings =
              (if r_type record = Some ''CNAME'' \<and> r_name record = r_zone record
               then [''Technitium: CNAME at zone apex is often restricted. Consider ANAME.'']
               else [])
        in if (case r_ttl record of Some n \<Rightarrow> n \<noteq> 0 \<and> n < 0 | None \<Rightarrow> False)
           then (warnings, Inl (Error ''TTL must be a positive integer''))
           else (warnings, Inr ()))"

section \<open>The class TechnitiumProvider of TechnitiumProvider.js\<close>

text \<open>
  The second class of the repository (the file that follows validator.js) carries its own
  \<open>validateRecord(hostname, type, content, additionalOptions)\<close> with the address
  checks. Its arguments are strings; strings are byte strings here, and
  \<open>toUpperCase\<close> maps the ASCII letters.
\<close>

definition is_digit :: "char \<Rightarrow> bool" where
  "is_digit c = (48 \<le> (of_char c :: nat) \<and> (of_char c :: nat) \<le> 57)"

definition is_hex :: "char \<Rightarrow> bool" where
  "is_hex c = (is_digit c \<or> (97 \<le> (of_char c :: nat) \<and> (of_char c :: nat) \<le> 102)
                          \<or> (65 \<le> (of_char c :: nat) \<and> (of_char c :: nat) \<le> 70))"

definition upper_char :: "char \<Rightarrow> char" where
  "upper_char c =
     (if 97 \<le> (of_char c :: nat) \<and> (of_char c :: nat) \<le> 122
      then char_of ((of_char c :: nat) - 32) else c)"

definition toUpperCase :: "string \<Rightarrow> string" where
  "toUpperCase s = map upper_char s"

text \<open>\<^verbatim>\<open>s.split(sep)\<close> for a one-character separator.\<close>

fun split_on :: "char \<Rightarrow> string \<Rightarrow> string list" where
  "split_on sep [] = [[]]"
| "split_on sep (c # cs) =
     (if c = sep then [] # split_on sep cs
      else (case split_on sep cs of
              [] \<Rightarrow> [[c]]
            | p # ps \<Rightarrow> (c # p) # ps))"

text \<open>\<^verbatim>\<open>parseInt(part, 10)\<close> on a string of digits.\<close>

definition parseInt10 :: "string \<Rightarrow> nat" where
  "parseInt10 s = foldl (\<lambda>a c. 10 * a + ((of_char c :: nat) - 48)) 0 s"

text \<open>
  \<^verbatim>\<open>/^(\d{1,3}\.){3}\d{1,3}$/\<close>: four groups of one to three digits, separated by
  dots, and nothing else.
\<close>

definition ipv4Regex :: "string \<Rightarrow> bool" where
  "ipv4Regex ip =
     (length (split_on CHR ''.'' ip) = 4 \<and>
      list_all (\<lambda>p. 1 \<le> length p \<and> length p \<le> 3 \<and> list_all is_digit p) (split_on CHR ''.'' ip))"

definition isValidIPv4 :: "string \<Rightarrow> bool" where
  "isValidIPv4 ip =
     (if \<not> ipv4Regex ip then False
      else list_all (\<lambda>part. 0 \<le> parseInt10 part \<and> parseInt10 part \<le> 255) (split_on CHR ''.'' ip))"

definition hexGroup :: "string \<Rightarrow> bool" where
  "hexGroup p = (1 \<le> length p \<and> length p \<le> 4 \<and> list_all is_hex p)"

text \<open>
  The four alternatives of \<open>ipv6Regex\<close>: eight groups; \<^verbatim>\<open>::\<close>; one to six groups,
  each followed by a colon, and a final colon; \<^verbatim>\<open>:\<close> followed by one to six times a
  colon and a group.
\<close>

definition isValidIPv6 :: "string \<Rightarrow> bool" where
  "isValidIPv6 ip =
     (let parts = split_on CHR '':'' ip; n = length parts
      in (n = 8 \<and> list_all hexGroup parts)
         \<or> ip = ''::''
         \<or> (3 \<le> n \<and> n \<le> 8 \<and> drop (n - 2) parts = [[], []] \<and> list_all hexGroup (take (n - 2) parts))
         \<or> (3 \<le> n \<and> n \<le> 8 \<and> take 2 parts = [[], []] \<and> list_all hexGroup (drop 2 parts)))"

record additional_options =
  o_priority :: "int option"
  o_weight :: "int option"
  o_port :: "int option"

fun unset :: "int option \<Rightarrow> bool" where
  "unset None = True"
| "unset (Some n) = (n = 0)"

text \<open>
  The method returns \<^verbatim>\<open>true\<close> or throws. It fills defaults into the caller's
  \<open>additionalOptions\<close> object, so the model returns that object as the method left it.
  The first argument is \<^verbatim>\<open>this.zone\<close>.
\<close>

definition TechnitiumProvider_validateRecord ::
  "string \<Rightarrow> string \<Rightarrow> string \<Rightarrow> string \<Rightarrow> additional_options \<Rightarrow> error + additional_options" where
  "TechnitiumProvider_validateRecord zone hostname type content additionalOptions =
     (if hostname = [] \<or> type = [] \<or> content = []
      then Inl (Error ''Hostname, type, and content are required'')
      else if toUpperCase type = ''A'' then
        (if \<not> isValidIPv4 content then Inl (Error (''Invalid IPv4 address: '' @ content))
         else Inr additionalOptions)
      else if toUpperCase type = ''AAAA'' then
        (if \<not> isValidIPv6 content then Inl (Error (''Invalid IPv6 address: '' @ content))
         else Inr additionalOptions)
      else if toUpperCase type = ''CNAME'' then
        (if hostname = zone
         then Inl (Error ''CNAME records cannot be created at zone apex. Use A or ANAME instead.'')
         else Inr additionalOptions)
      else if toUpperCase type = ''MX'' then
        Inr (if unset (o_priority additionalOptions)
             then additionalOptions\<lparr> o_priority := Some 10 \<rparr> else additionalOptions)
      else if toUpperCase type = ''SRV'' then
        (let o1 = (if unset (o_priority additionalOptions)
                   then additionalOptions\<lparr> o_priority := Some 10 \<rparr> else additionalOptions);
             o2 = (if unset (o_weight o1) then o1\<lparr> o_weight := Some 10 \<rparr> else o1);
             o3 = (if unset (o_port o2) then o2\<lparr> o_port := Some 80 \<rparr> else o2)
         in Inr o3)
      else Inr additionalOptions)"

section \<open>provider.js: the provider and its backend\<close>

text \<open>
  The provider talks to the Technitium server through an HTTP client. The server is an
  external collaborator: it is a parameter of the model, a deterministic machine over a
  state \<open>'b\<close> that answers the three requests the provider issues. An answer is either
  a thrown error (timeout, connection failure, non-2xx status) or the body's
  \<^verbatim>\<open>status\<close> (with the records for the list request).
\<close>

record list_response =
  l_status :: string
  l_records :: "tech_record list option"

record 'b client =
  http_get :: "string \<Rightarrow> string \<Rightarrow> 'b \<Rightarrow> (error + list_response) \<times> 'b"
  http_add :: "wire_params \<Rightarrow> 'b \<Rightarrow> (error + string) \<times> 'b"
  http_delete :: "wire_params \<Rightarrow> 'b \<Rightarrow> (error + string) \<times> 'b"

text \<open>
  What the provider did, oldest first: the requests it sent, and the entries into its
  three mutating methods (with the name and type of the record for \<open>createRecord\<close>,
  the id for \<open>updateRecord\<close> and \<open>deleteRecord\<close>). The entries are bookkeeping of
  the model: no code reads them.
\<close>

datatype call =
    HttpGet
  | HttpAdd wire_params
  | HttpDelete wire_params
  | CreateRecord "string option" "string option"
  | UpdateRecord "string option"
  | DeleteRecord "string option"

fun is_http :: "call \<Rightarrow> bool" where
  "is_http HttpGet = True"
| "is_http (HttpAdd p) = True"
| "is_http (HttpDelete p) = True"
| "is_http c = False"

fun is_mutation :: "call \<Rightarrow> bool" where
  "is_mutation HttpGet = False"
| "is_mutation c = True"

datatype level = Info | Warn | Err

text \<open>
  The provider object with its surroundings: configuration (\<open>zone\<close>, \<open>token\<close>, the
  cache refresh interval), \<open>recordCache\<close> (\<open>records\<close>, \<open>lastUpdated\<close>), the clock
  that \<^verbatim>\<open>Date.now()\<close> reads, the server's state, the calls made so far and the
  logger's output at the levels \<open>warn\<close> and \<open>error\<close> (the \<open>info\<close>,
  \<open>debug\<close> and \<open>trace\<close> lines are not modelled).
\<close>

record 'b provider =
  p_zone :: string
  p_token :: string
  p_cacheRefreshInterval :: int
  p_records :: "dns_record list"
  p_lastUpdated :: int
  p_now :: int
  p_backend :: 'b
  p_calls :: "call list"
  p_log :: "(level \<times> string) list"

definition refreshRecordCache ::
  "'b client \<Rightarrow> 'b provider \<Rightarrow> (error + dns_record list) \<times> 'b provider" where
  "refreshRecordCache cl st =
     (case http_get cl (p_token st) (p_zone st) (p_backend st) of
        (response, b) \<Rightarrow>
          let st1 = st\<lparr> p_backend := b, p_calls := p_calls st @ [HttpGet] \<rparr>
          in case response of
               Inl e \<Rightarrow> (Inl e, st1)
             | Inr data \<Rightarrow>
                 if l_status data \<noteq> ''ok''
                 then (Inl (Error (''Technitium API Error: '' @ l_status data)), st1)
                 else
                   let records = (case l_records data of Some rs \<Rightarrow> rs | None \<Rightarrow> []);
                       st2 = st1\<lparr> p_records := map convertToStandardFormat records,
                                   p_lastUpdated := p_now st1 \<rparr>
                   in (Inr (p_records st2), st2))"

text \<open>
  Modelled from the spec: \<open>getRecordsFromCache\<close> is inherited from the base class
  \<^verbatim>\<open>DNSProvider\<close> (\<^verbatim>\<open>../base\<close>), which is not among the sources. The spec (4.1,
  4.3): the snapshot is served if fresh, else a refresh comes first; a refresh is
  triggered only if the cache is stale or empty; the cache is trusted if
  \<^verbatim>\<open>now - lastUpdated < threshold\<close>.
\<close>

definition getRecordsFromCache ::
  "'b client \<Rightarrow> 'b provider \<Rightarrow> (error + dns_record list) \<times> 'b provider" where
  "getRecordsFromCache cl st =
     (if p_now st - p_lastUpdated st < p_cacheRefreshInterval st \<and> p_records st \<noteq> []
      then (Inr (p_records st), st)
      else refreshRecordCache cl st)"

definition createRecord ::
  "'b client \<Rightarrow> dns_record \<Rightarrow> 'b provider \<Rightarrow> (error + dns_record) \<times> 'b provider" where
  "createRecord cl record st =
     (let st0 = st\<lparr> p_calls := p_calls st @ [CreateRecord (r_name record) (r_type record)] \<rparr>
      in case validateRecord record of
           (warnings, validation) \<Rightarrow>
             let st1 = st0\<lparr> p_log := p_log st0 @ map (Pair Warn) warnings \<rparr>
             in case validation of
                  Inl e \<Rightarrow> (Inl e, st1)
                | Inr u \<Rightarrow>
                    let techData = convertToTechnitiumFormat record None;
                        params = techData\<lparr> w_token := Some (p_token st1), w_zone := Some (p_zone st1) \<rparr>
                    in case http_add cl params (p_backend st1) of
                         (response, b) \<Rightarrow>
                           let st2 = st1\<lparr> p_backend := b, p_calls := p_calls st1 @ [HttpAdd params] \<rparr>
                           in case response of
                                Inl e \<Rightarrow> (Inl e, st2)
                              | Inr status \<Rightarrow>
                                  if status \<noteq> ''ok''
                                  then (Inl (Error (''Create failed: '' @ status)), st2)
                                  else (case refreshRecordCache cl st2 of
                                          (Inl e, st3) \<Rightarrow> (Inl e, st3)
                                        | (Inr rs, st3) \<Rightarrow> (Inr record, st3)))"

definition deleteRecord ::
  "'b client \<Rightarrow> string option \<Rightarrow> 'b provider \<Rightarrow> (error + bool) \<times> 'b provider" where
  "deleteRecord cl rid st =
     (let st0 = st\<lparr> p_calls := p_calls st @ [DeleteRecord rid] \<rparr>
      in case find (\<lambda>r. r_id r = rid) (p_records st0) of
           None \<Rightarrow> (Inr False, st0)
         | Some record \<Rightarrow>
             let techData = convertToTechnitiumFormat record None;
                 params = techData\<lparr> w_token := Some (p_token st0), w_zone := Some (p_zone st0),
                                     w_domain := r_name record \<rparr>
             in case http_delete cl params (p_backend st0) of
                  (response, b) \<Rightarrow>
                    let st1 = st0\<lparr> p_backend := b, p_calls := p_calls st0 @ [HttpDelete params] \<rparr>
                    in case response of
                         Inl e \<Rightarrow> (Inl e, st1)
                       | Inr status \<Rightarrow>
                           if status = ''ok''
                           then (Inr True, st1\<lparr> p_records := filter (\<lambda>r. r_id r \<noteq> rid) (p_records st1) \<rparr>)
                           else (Inr False, st1))"

text \<open>Technitium requires delete + create for updates.\<close>

definition updateRecord ::
  "'b client \<Rightarrow> string option \<Rightarrow> dns_record \<Rightarrow> 'b provider \<Rightarrow> (error + dns_record) \<times> 'b provider" where
  "updateRecord cl rid record st =
     (let st0 = st\<lparr> p_calls := p_calls st @ [UpdateRecord rid] \<rparr>
      in case deleteRecord cl rid st0 of
           (Inl e, st1) \<Rightarrow> (Inl e, st1)
         | (Inr deleted, st1) \<Rightarrow> createRecord cl record st1)"

text \<open>
  \<^verbatim>\<open>contentDiff || ttlDiff\<close>, read as a condition. \<^verbatim>\<open>newRecord.ttl && ...\<close> holds
  only for a ttl that is present and not 0.
\<close>

definition recordNeedsUpdate :: "dns_record \<Rightarrow> dns_record \<Rightarrow> bool" where
  "recordNeedsUpdate existing newRecord =
     (let contentDiff = \<not> strict_eq (r_content existing) (r_content newRecord);
          ttlDiff = (case r_ttl newRecord of
                       Some n \<Rightarrow> n \<noteq> 0 \<and> r_ttl existing \<noteq> r_ttl newRecord
                     | None \<Rightarrow> False)
      in contentDiff \<or> ttlDiff)"

text \<open>
  The body of the \<^verbatim>\<open>try\<close> block of \<open>batchEnsureRecords\<close> for one \<open>config\<close>: the
  record pushed onto \<open>results\<close> if any, or the error thrown.
\<close>

definition ensureRecord ::
  "'b client \<Rightarrow> dns_record \<Rightarrow> 'b provider \<Rightarrow> (error + dns_record option) \<times> 'b provider" where
  "ensureRecord cl config st =
     (case find (\<lambda>r. r_name r = r_name config \<and> r_type r = r_type config) (p_records st) of
        None \<Rightarrow>
          (case createRecord cl config st of
             (Inl e, st1) \<Rightarrow> (Inl e, st1)
           | (Inr r, st1) \<Rightarrow> (Inr (Some r), st1))
      | Some existing \<Rightarrow>
          if recordNeedsUpdate existing config
          then (case updateRecord cl (r_id existing) config st of
                  (Inl e, st1) \<Rightarrow> (Inl e, st1)
                | (Inr r, st1) \<Rightarrow> (Inr (Some r), st1))
          else (Inr None, st))"

text \<open>
  The \<^verbatim>\<open>for\<close> loop with its \<^verbatim>\<open>try\<close>/\<^verbatim>\<open>catch\<close>: an error is logged and the loop
  goes on with the next \<open>config\<close>.
\<close>

fun batchLoop ::
  "'b client \<Rightarrow> dns_record list \<Rightarrow> dns_record list \<Rightarrow> 'b provider \<Rightarrow> dns_record list \<times> 'b provider" where
  "batchLoop cl [] results st = (results, st)"
| "batchLoop cl (config # rest) results st =
     (case ensureRecord cl config st of
        (Inr None, st1) \<Rightarrow> batchLoop cl rest results st1
      | (Inr (Some r), st1) \<Rightarrow> batchLoop cl rest (results @ [r]) st1
      | (Inl e, st1) \<Rightarrow>
          batchLoop cl rest results
            (st1\<lparr> p_log := p_log st1 @
               [(Err, ''Failed to process record '' @ str_opt (r_name config) @ '': '' @ message e)] \<rparr>))"

definition batchEnsureRecords ::
  "'b client \<Rightarrow> dns_record list \<Rightarrow> 'b provider \<Rightarrow> (error + dns_record list) \<times> 'b provider" where
  "batchEnsureRecords cl recordConfigs st =
     (if recordConfigs = [] then (Inr [], st)
      else case getRecordsFromCache cl st of
             (Inl e, st1) \<Rightarrow> (Inl e, st1)
           | (Inr rs, st1) \<Rightarrow>
               (case batchLoop cl recordConfigs [] st1 of
                  (results, st2) \<Rightarrow> (Inr results, st2)))"

section \<open>An in-memory server\<close>

text \<open>
  A stand-in for the Technitium server, used to run the provider on concrete inputs: the
  zone is the list of its records. An add request stores the record it describes (the
  content under the key the request used), a delete request removes the records of that
  name, type and data, and the list request returns the zone. Every request succeeds.
\<close>

definition stored_rData :: "wire_params \<Rightarrow> jsval" where
  "stored_rData p =
     JObject ((if w_ipAddress p = JUndefined then [] else [(''ipAddress'', w_ipAddress p)]) @
              (if w_cname p = JUndefined then [] else [(''cname'', w_cname p)]) @
              (if w_text p = JUndefined then [] else [(''text'', w_text p)]) @
              (if w_exchange p = JUndefined then [] else [(''exchange'', w_exchange p)]) @
              (case w_preference p of None \<Rightarrow> [] | Some n \<Rightarrow> [(''preference'', JNumber n)]))"

definition stored_record :: "wire_params \<Rightarrow> tech_record" where
  "stored_record p =
     \<lparr> t_name = w_domain p, t_type = w_type p, t_ttl = Some (w_ttl p), t_rData = stored_rData p \<rparr>"

definition same_record :: "wire_params \<Rightarrow> tech_record \<Rightarrow> bool" where
  "same_record p t =
     (t_name t = w_domain p \<and> t_type t = w_type p \<and> t_rData t = stored_rData p)"

definition memory_server :: "(tech_record list) client" where
  "memory_server =
     \<lparr> http_get = (\<lambda>token zone b. (Inr \<lparr> l_status = ''ok'', l_records = Some b \<rparr>, b)),
       http_add = (\<lambda>p b. (Inr ''ok'', b @ [stored_record p])),
       http_delete = (\<lambda>p b. (Inr ''ok'', filter (\<lambda>t. \<not> same_record p t) b)) \<rparr>"

text \<open>
  A provider for a zone, before its first read of the server: the cache is empty and was
  never updated. The clock reads 1000.
\<close>

definition new_provider :: "string \<Rightarrow> string \<Rightarrow> 'b \<Rightarrow> 'b provider" where
  "new_provider zone token b =
     \<lparr> p_zone = zone, p_token = token, p_cacheRefreshInterval = 3600000,
       p_records = [], p_lastUpdated = 0, p_now = 1000,
       p_backend = b, p_calls = [], p_log = [] \<rparr>"

text \<open>
  Reading a request object where a backend record is expected (the converter's output
  handed straight to \<open>convertToStandardFormat\<close>): the object has the keys
  \<open>type\<close> and \<open>ttl\<close>, and neither \<open>name\<close> nor \<open>rData\<close>.
\<close>

definition request_as_record :: "wire_params \<Rightarrow> tech_record" where
  "request_as_record p =
     \<lparr> t_name = None, t_type = w_type p, t_ttl = Some (w_ttl p), t_rData = JUndefined \<rparr>"

section \<open>Reading the calls and the results of a batch\<close>

fun is_update :: "call \<Rightarrow> bool" where
  "is_update (UpdateRecord i) = True"
| "is_update c = False"


text \<open>
  The outcome of every specification of a batch, in input order: each is processed in
  the state its predecessors left, a failure being logged before the next one starts.
  \<open>Inr (Some r)\<close> is a record created or updated, \<open>Inr None\<close> a record left alone,
  \<open>Inl e\<close> a failure.
\<close>

definition log_failure :: "dns_record \<Rightarrow> error \<Rightarrow> 'b provider \<Rightarrow> 'b provider" where
  "log_failure config e st =
     st\<lparr> p_log := p_log st @
          [(Err, ''Failed to process record '' @ str_opt (r_name config) @ '': '' @ message e)] \<rparr>"

fun outcomes :: "'b client \<Rightarrow> dns_record list \<Rightarrow> 'b provider \<Rightarrow> (error + dns_record option) list" where
  "outcomes cl [] st = []"
| "outcomes cl (config # rest) st =
     (case ensureRecord cl config st of
        (Inl e, st1) \<Rightarrow> Inl e # outcomes cl rest (log_failure config e st1)
      | (Inr r, st1) \<Rightarrow> Inr r # outcomes cl rest st1)"

fun final_state :: "'b client \<Rightarrow> dns_record list \<Rightarrow> 'b provider \<Rightarrow> 'b provider" where
  "final_state cl [] st = st"
| "final_state cl (config # rest) st =
     (case ensureRecord cl config st of
        (Inl e, st1) \<Rightarrow> final_state cl rest (log_failure config e st1)
      | (Inr r, st1) \<Rightarrow> final_state cl rest st1)"

fun succeeded :: "(error + dns_record option) list \<Rightarrow> dns_record list" where
  "succeeded [] = []"
| "succeeded (Inr (Some r) # os) = r # succeeded os"
| "succeeded (x # os) = succeeded os"


section \<open>The public IP resolver of the configuration manager\<close>

text \<open>
  The IP cache, the environment variables \<^verbatim>\<open>PUBLIC_IP\<close> and \<^verbatim>\<open>PUBLIC_IPV6\<close>, the
  module-level flag \<open>ipUpdateInProgress\<close>, the clock, the lookup requests sent so
  far and the messages written. The three lookup services are external: what each
  answers (the response's \<open>data\<close>, or the error thrown on failure or timeout) is a
  parameter.
\<close>

record ip_cache =
  c_ipv4 :: jsval
  c_ipv6 :: jsval
  c_lastCheck :: int

record ip_services =
  s_ipify :: "error + jsval"
  s_ifconfig_me :: "error + jsval"
  s_ipify6 :: "error + jsval"

datatype request = Ipify | IfconfigMe | Ipify6

record config_manager =
  m_ipCache :: ip_cache
  m_ipRefreshInterval :: int
  m_PUBLIC_IP :: "string option"
  m_PUBLIC_IPV6 :: "string option"
  m_ipUpdateInProgress :: bool
  m_now :: int
  m_requests :: "request list"
  m_log :: "(level \<times> string) list"

fun env_val :: "string option \<Rightarrow> jsval" where
  "env_val None = JUndefined"
| "env_val (Some s) = JString s"

text \<open>
  \<open>updatePublicIPs\<close> for a caller that runs alone. With the flag set on entry it
  polls until another caller clears it, which alone never happens: \<open>None\<close>. Otherwise
  it runs through and returns the cache; nothing inside the outer \<^verbatim>\<open>try\<close> can throw
  past the inner handlers. The \<open>debug\<close> lines are not modelled; the console line for a
  changed IPv4 address is the \<open>Info\<close> entry, without its timestamp.
\<close>

definition updatePublicIPs ::
  "ip_services \<Rightarrow> config_manager \<Rightarrow> (ip_cache \<times> config_manager) option" where
  "updatePublicIPs sv st =
     (if m_ipUpdateInProgress st then None
      else
        let st1 = st\<lparr> m_ipUpdateInProgress := True \<rparr>;
            oldIpv4 = c_ipv4 (m_ipCache st1);
            oldIpv6 = c_ipv6 (m_ipCache st1);
            env4 = env_val (m_PUBLIC_IP st1);
            env6 = env_val (m_PUBLIC_IPV6 st1);
            (ipv4, st2) =
              (if \<not> truthy env4 then
                 (case s_ipify sv of
                    Inr data \<Rightarrow> (data, st1\<lparr> m_requests := m_requests st1 @ [Ipify] \<rparr>)
                  | Inl e \<Rightarrow>
                      (case s_ifconfig_me sv of
                         Inr data \<Rightarrow> (data, st1\<lparr> m_requests := m_requests st1 @ [Ipify, IfconfigMe] \<rparr>)
                       | Inl fallbackError \<Rightarrow>
                           (env4, st1\<lparr> m_requests := m_requests st1 @ [Ipify, IfconfigMe],
                                       m_log := m_log st1 @
                                         [(Err, ''Failed to fetch public IPv4 address: '' @
                                                message fallbackError)] \<rparr>)))
               else (env4, st1));
            (ipv6, st3) =
              (if \<not> truthy env6 then
                 (case s_ipify6 sv of
                    Inr data \<Rightarrow> (data, st2\<lparr> m_requests := m_requests st2 @ [Ipify6] \<rparr>)
                  | Inl e \<Rightarrow> (env6, st2\<lparr> m_requests := m_requests st2 @ [Ipify6] \<rparr>))
               else (env6, st2));
            st4 = st3\<lparr> m_ipCache := \<lparr> c_ipv4 = ipv4, c_ipv6 = ipv6, c_lastCheck = m_now st3 \<rparr> \<rparr>;
            st5 = (if truthy ipv4 \<and> \<not> strict_eq ipv4 oldIpv4
                   then st4\<lparr> m_log := m_log st4 @ [(Info, ''Public IPv4: '' @ to_string ipv4)] \<rparr>
                   else st4);
            st6 = st5\<lparr> m_ipUpdateInProgress := False \<rparr>
        in Some (m_ipCache st6, st6))"

definition getPublicIP ::
  "ip_services \<Rightarrow> config_manager \<Rightarrow> (jsval \<times> config_manager) option" where
  "getPublicIP sv st =
     (let cacheAge = m_now st - c_lastCheck (m_ipCache st)
      in if truthy (c_ipv4 (m_ipCache st)) \<and> cacheAge < m_ipRefreshInterval st
         then Some (c_ipv4 (m_ipCache st), st)
         else (case updatePublicIPs sv st of
                 None \<Rightarrow> None
               | Some (cache, st1) \<Rightarrow> Some (c_ipv4 (m_ipCache st1), st1)))"

section \<open>Concurrent callers of updatePublicIPs\<close>

text \<open>
  JavaScript runs one piece of code at a time, and an \<^verbatim>\<open>async\<close> function gives up
  control only at an \<^verbatim>\<open>await\<close>. An invocation of \<open>updatePublicIPs\<close> is therefore
  a sequence of segments that each run without interruption; between two segments any
  segment of another invocation may run. A task is an invocation between two segments:
  polling for the flag (\<open>Waiting\<close>), past the poll that saw the flag cleared and about
  to \<^verbatim>\<open>return this.ipCache\<close> (\<open>Woken\<close>), awaiting the answer of a lookup service
  (with the local variables of the invocation), or returned with its result.
\<close>

record locals =
  l_oldIpv4 :: jsval
  l_oldIpv6 :: jsval
  l_ipv4 :: jsval
  l_ipv6 :: jsval

datatype task =
    Waiting
  | Woken
  | AwaitIpify locals
  | AwaitIfconfigMe locals
  | AwaitIpify6 locals
  | Returned ip_cache

fun in_flight :: "task \<Rightarrow> bool" where
  "in_flight (AwaitIpify v) = True"
| "in_flight (AwaitIfconfigMe v) = True"
| "in_flight (AwaitIpify6 v) = True"
| "in_flight t = False"

text \<open>From \<^verbatim>\<open>this.ipCache = {...}\<close> to the \<^verbatim>\<open>finally\<close> block.\<close>

definition finish :: "locals \<Rightarrow> config_manager \<Rightarrow> task \<times> config_manager" where
  "finish v st =
     (let st4 = st\<lparr> m_ipCache := \<lparr> c_ipv4 = l_ipv4 v, c_ipv6 = l_ipv6 v, c_lastCheck = m_now st \<rparr> \<rparr>;
          st5 = (if truthy (l_ipv4 v) \<and> \<not> strict_eq (l_ipv4 v) (l_oldIpv4 v)
                 then st4\<lparr> m_log := m_log st4 @ [(Info, ''Public IPv4: '' @ to_string (l_ipv4 v))] \<rparr>
                 else st4);
          st6 = st5\<lparr> m_ipUpdateInProgress := False \<rparr>
      in (Returned (m_ipCache st6), st6))"

text \<open>From \<^verbatim>\<open>if (!ipv6)\<close> on: the request to the IPv6 service goes out, or the run finishes.\<close>

definition lookupIPv6 :: "locals \<Rightarrow> config_manager \<Rightarrow> task \<times> config_manager" where
  "lookupIPv6 v st =
     (if \<not> truthy (l_ipv6 v)
      then (AwaitIpify6 v, st\<lparr> m_requests := m_requests st @ [Ipify6] \<rparr>)
      else finish v st)"

text \<open>The first segment: from the call to the first \<^verbatim>\<open>await\<close> (or to the end).\<close>

definition enter :: "config_manager \<Rightarrow> task \<times> config_manager" where
  "enter st =
     (if m_ipUpdateInProgress st then (Waiting, st)
      else
        let st1 = st\<lparr> m_ipUpdateInProgress := True \<rparr>;
            v = \<lparr> l_oldIpv4 = c_ipv4 (m_ipCache st1), l_oldIpv6 = c_ipv6 (m_ipCache st1),
                  l_ipv4 = env_val (m_PUBLIC_IP st1), l_ipv6 = env_val (m_PUBLIC_IPV6 st1) \<rparr>
        in if \<not> truthy (l_ipv4 v)
           then (AwaitIpify v, st1\<lparr> m_requests := m_requests st1 @ [Ipify] \<rparr>)
           else lookupIPv6 v st1)"

text \<open>
  The next segment of a task: a tick of the 100 ms poll, the return after the poll, or the
  continuation after a lookup service answered.
\<close>

fun resume :: "ip_services \<Rightarrow> task \<Rightarrow> config_manager \<Rightarrow> task \<times> config_manager" where
  "resume sv Waiting st = (if m_ipUpdateInProgress st then (Waiting, st) else (Woken, st))"
| "resume sv Woken st = (Returned (m_ipCache st), st)"
| "resume sv (AwaitIpify v) st =
     (case s_ipify sv of
        Inr data \<Rightarrow> lookupIPv6 (v\<lparr> l_ipv4 := data \<rparr>) st
      | Inl e \<Rightarrow> (AwaitIfconfigMe v, st\<lparr> m_requests := m_requests st @ [IfconfigMe] \<rparr>))"
| "resume sv (AwaitIfconfigMe v) st =
     (case s_ifconfig_me sv of
        Inr data \<Rightarrow> lookupIPv6 (v\<lparr> l_ipv4 := data \<rparr>) st
      | Inl fallbackError \<Rightarrow>
          lookupIPv6 v
            (st\<lparr> m_log := m_log st @
                 [(Err, ''Failed to fetch public IPv4 address: '' @ message fallbackError)] \<rparr>))"
| "resume sv (AwaitIpify6 v) st =
     (case s_ipify6 sv of
        Inr data \<Rightarrow> finish (v\<lparr> l_ipv6 := data \<rparr>) st
      | Inl e \<Rightarrow> finish v st)"
| "resume sv (Returned c) st = (Returned c, st)"

text \<open>
  The system: the manager and the invocations made so far. An event is a new invocation,
  which runs its first segment at once, or the next segment of the invocation number
  \<open>i\<close>. A schedule is a list of events.
\<close>

datatype event = Invoke | Resume nat

fun step :: "ip_services \<Rightarrow> event \<Rightarrow> config_manager \<times> task list \<Rightarrow> config_manager \<times> task list" where
  "step sv Invoke (st, ts) = (case enter st of (t, st1) \<Rightarrow> (st1, ts @ [t]))"
| "step sv (Resume i) (st, ts) =
     (if i < length ts
      then (case resume sv (ts ! i) st of (t, st1) \<Rightarrow> (st1, ts[i := t]))
      else (st, ts))"

fun run :: "ip_services \<Rightarrow> event list \<Rightarrow> config_manager \<times> task list \<Rightarrow> config_manager \<times> task list" where
  "run sv [] sys = sys"
| "run sv (e # es) sys = run sv es (step sv e sys)"

text \<open>Every invocation of the schedule is made while a refresh is in progress.\<close>

fun invoked_in_flight :: "ip_services \<Rightarrow> event list \<Rightarrow> config_manager \<times> task list \<Rightarrow> bool" where
  "invoked_in_flight sv [] sys = True"
| "invoked_in_flight sv (Invoke # es) sys =
     (m_ipUpdateInProgress (fst sys) \<and> invoked_in_flight sv es (step sv Invoke sys))"
| "invoked_in_flight sv (Resume i # es) sys = invoked_in_flight sv es (step sv (Resume i) sys)"

text \<open>Three more segments bring any refresh in flight to its end.\<close>

definition settle :: "ip_services \<Rightarrow> task \<Rightarrow> config_manager \<Rightarrow> task \<times> config_manager" where
  "settle sv t st =
     (case resume sv t st of (t1, s1) \<Rightarrow>
        (case resume sv t1 s1 of (t2, s2) \<Rightarrow> resume sv t2 s2))"

text \<open>
  A task that has returned has returned the cache \<open>cache\<close>, in a system whose manager
  is in the state \<open>st1\<close>.
\<close>

fun settled :: "ip_cache \<Rightarrow> config_manager \<Rightarrow> config_manager \<Rightarrow> task \<Rightarrow> bool" where
  "settled cache st1 st (Returned c) = (c = cache \<and> st = st1)"
| "settled cache st1 st t = True"

text \<open>
  What holds of the system while the callers of one refresh are served: the first task is
  the refresh, in flight or returned, and \<open>settle\<close> brings it to the result
  \<open>cache\<close> and the state \<open>st1\<close>; the flag is set exactly while it is in flight; the
  requests sent lie between those of the start and those of the end; every other task polls,
  or, once the flag is cleared, has seen that or has returned \<open>cache\<close>.
\<close>

fun waiter :: "ip_cache \<Rightarrow> config_manager \<Rightarrow> task \<Rightarrow> bool" where
  "waiter cache st Waiting = True"
| "waiter cache st Woken = (\<not> m_ipUpdateInProgress st)"
| "waiter cache st (Returned c) = (\<not> m_ipUpdateInProgress st \<and> c = cache)"
| "waiter cache st t = False"

definition one_refresh ::
  "ip_services \<Rightarrow> config_manager \<Rightarrow> ip_cache \<Rightarrow> config_manager \<Rightarrow> config_manager \<times> task list \<Rightarrow> bool" where
  "one_refresh sv st0 cache st1 sys =
     (case sys of
        (st, ts) \<Rightarrow>
          ts \<noteq> [] \<and>
          settle sv (hd ts) st = (Returned cache, st1) \<and>
          (in_flight (hd ts) \<or> hd ts = Returned cache) \<and>
          m_ipUpdateInProgress st = in_flight (hd ts) \<and>
          prefix (m_requests st0) (m_requests st) \<and>
          prefix (m_requests st) (m_requests st1) \<and>
          list_all (waiter cache st) (tl ts))"

section \<open>What a second run needs\<close>

text \<open>
  The identity by which \<open>batchEnsureRecords\<close> looks a record up: name and type.
\<close>

definition record_key :: "dns_record \<Rightarrow> string option \<times> string option" where
  "record_key r = (r_name r, r_type r)"

definition zone_key :: "tech_record \<Rightarrow> string option \<times> string option" where
  "zone_key t = (t_name t, t_type t)"


text \<open>The record the in-memory server stores for a specification.\<close>

definition stored_of :: "dns_record \<Rightarrow> tech_record" where
  "stored_of c = stored_record (convertToTechnitiumFormat c None)"




section \<open>Example inputs\<close>

definition example_A :: dns_record where
  "example_A =
     \<lparr> r_id = None, r_type = Some ''A'', r_name = Some ''app.example.com'',
       r_content = JString ''1.2.3.4'', r_ttl = Some 300, r_priority = None,
       r_zone = None, r_manage = None, r_original = None \<rparr>"

definition example_provider :: "(tech_record list) provider" where
  "example_provider = new_provider ''example.com'' ''token'' []"

definition example_stored :: tech_record where
  "example_stored =
     \<lparr> t_name = Some ''app.example.com'', t_type = Some ''A'', t_ttl = Some 300,
       t_rData = JObject [(''ipAddress'', JString ''1.2.3.4'')] \<rparr>"

text \<open>The provider once the server holds that record and the cache has been read.\<close>

definition example_cached :: "(tech_record list) provider" where
  "example_cached =
     example_provider\<lparr> p_records := [convertToStandardFormat example_stored],
                       p_backend := [example_stored], p_lastUpdated := 1000 \<rparr>"



definition example_A_moved :: dns_record where
  "example_A_moved = example_A\<lparr> r_content := JString ''5.6.7.8'' \<rparr>"

definition example_unmanaged :: dns_record where
  "example_unmanaged = example_A\<lparr> r_manage := Some False \<rparr>"

definition example_TXT_1 :: dns_record where
  "example_TXT_1 =
     example_A\<lparr> r_name := Some ''example.com'', r_type := Some ''TXT'',
                r_content := JString ''v=spf1 -all'' \<rparr>"

definition example_TXT_2 :: dns_record where
  "example_TXT_2 = example_TXT_1\<lparr> r_content := JString ''site-verification=abc'' \<rparr>"

text \<open>A specification with another set of \<open>manage\<close> flags.\<close>

definition with_manage :: "(dns_record \<Rightarrow> bool option) \<Rightarrow> dns_record \<Rightarrow> dns_record" where
  "with_manage f config = config\<lparr> r_manage := f config \<rparr>"


definition example_MX :: dns_record where
  "example_MX =
     example_A\<lparr> r_name := Some ''example.com'', r_type := Some ''MX'',
                r_content := JString ''mail.example.com'', r_priority := Some 10 \<rparr>"

definition example_apex_CNAME :: dns_record where
  "example_apex_CNAME =
     example_A\<lparr> r_name := Some ''example.com'', r_type := Some ''CNAME'',
                r_content := JString ''target.example.net'', r_zone := Some ''example.com'' \<rparr>"

definition example_bad_A :: dns_record where
  "example_bad_A = example_A\<lparr> r_content := JString ''999.1.1.1'' \<rparr>"

definition no_options :: additional_options where
  "no_options = \<lparr> o_priority = None, o_weight = None, o_port = None \<rparr>"

text \<open>
  A manager whose cache holds an address found an hour ago, with no address in the
  environment; lookup services that all fail; and lookup services of which the first fails.
\<close>

definition example_manager :: config_manager where
  "example_manager =
     \<lparr> m_ipCache = \<lparr> c_ipv4 = JString ''203.0.113.7'', c_ipv6 = JNull, c_lastCheck = 0 \<rparr>,
       m_ipRefreshInterval = 3600000,
       m_PUBLIC_IP = None, m_PUBLIC_IPV6 = None,
       m_ipUpdateInProgress = False,
       m_now = 7200000, m_requests = [], m_log = [] \<rparr>"

definition failing_services :: ip_services where
  "failing_services =
     \<lparr> s_ipify = Inl (Error ''timeout of 5000ms exceeded''),
       s_ifconfig_me = Inl (Error ''timeout of 5000ms exceeded''),
       s_ipify6 = Inl (Error ''timeout of 5000ms exceeded'') \<rparr>"

definition fallback_services :: ip_services where
  "fallback_services =
     \<lparr> s_ipify = Inl (Error ''timeout of 5000ms exceeded''),
       s_ifconfig_me = Inr (JString ''198.51.100.4''),
       s_ipify6 = Inl (Error ''timeout of 5000ms exceeded'') \<rparr>"

definition example_schedule :: "event list" where
  "example_schedule =
     [Invoke, Resume 1, Resume 0, Invoke, Resume 2, Resume 0, Resume 1, Resume 0,
      Resume 1, Resume 2, Resume 1, Resume 2]"

text \<open>What the refresh of \<open>example_manager\<close> stores when only the fallback service answers.\<close>

definition example_result :: ip_cache where
  "example_result = \<lparr> c_ipv4 = JString ''198.51.100.4'', c_ipv6 = JUndefined, c_lastCheck = 7200000 \<rparr>"

definition example_refreshed :: config_manager where
  "example_refreshed =
     example_manager\<lparr> m_ipCache := example_result,
                       m_requests := [Ipify, IfconfigMe, Ipify6],
                       m_log := [(Info, ''Public IPv4: 198.51.100.4'')] \<rparr>"

text \<open>
  A schedule that lets a system of \<open>n\<close> tasks run out: three segments of the first task,
  then two of every other one.
\<close>

definition drain :: "nat \<Rightarrow> event list" where
  "drain n = [Resume 0, Resume 0, Resume 0] @ concat (map (\<lambda>i. [Resume i, Resume i]) [1..<n])"

text \<open>
  A zone with two TXT records of one name, and the provider once it has read it.
\<close>

definition two_TXT_zone :: "tech_record list" where
  "two_TXT_zone =
     [\<lparr> t_name = Some ''example.com'', t_type = Some ''TXT'', t_ttl = Some 300,
        t_rData = JObject [(''text'', JString ''v=spf1 -all'')] \<rparr>,
      \<lparr> t_name = Some ''example.com'', t_type = Some ''TXT'', t_ttl = Some 300,
        t_rData = JObject [(''text'', JString ''site-verification=abc'')] \<rparr>]"

definition two_TXT_provider :: "(tech_record list) provider" where
  "two_TXT_provider =
     example_provider\<lparr> p_records := map convertToStandardFormat two_TXT_zone,
                       p_backend := two_TXT_zone, p_lastUpdated := 1000 \<rparr>"






text \<open>
  Lookup services of a later moment, when the first one answers, with another address;
  what a refresh stores then; and a schedule in which a third caller arrives after the
  first refresh has ended and before the second caller's next poll.
\<close>

definition later_services :: ip_services where
  "later_services =
     \<lparr> s_ipify = Inr (JString ''192.0.2.9''),
       s_ifconfig_me = Inl (Error ''timeout of 5000ms exceeded''),
       s_ipify6 = Inl (Error ''timeout of 5000ms exceeded'') \<rparr>"

definition later_result :: ip_cache where
  "later_result = \<lparr> c_ipv4 = JString ''192.0.2.9'', c_ipv6 = JUndefined, c_lastCheck = 7200000 \<rparr>"

definition late_caller_schedule :: "event list" where
  "late_caller_schedule =
     [Invoke, Resume 0, Resume 0, Resume 0, Invoke, Resume 1, Resume 2, Resume 2, Resume 2,
      Resume 1, Resume 1]"


chapter \<open>Properties\<close>

section \<open>The calls a method makes\<close>

lemma refreshRecordCache_calls:
  "refreshRecordCache cl st = (res, st') \<Longrightarrow> p_calls st' = p_calls st @ [HttpGet]"
  by (auto simp: refreshRecordCache_def Let_def split: prod.splits sum.splits if_splits)

lemma createRecord_calls:
  "createRecord cl r st = (res, st') \<Longrightarrow>
   \<exists>new. p_calls st' = p_calls st @ CreateRecord (r_name r) (r_type r) # new \<and> list_all is_http new"
  by (auto simp: createRecord_def Let_def split: prod.splits sum.splits if_splits
           dest!: refreshRecordCache_calls)

lemma deleteRecord_calls:
  "deleteRecord cl rid st = (res, st') \<Longrightarrow>
   \<exists>new. p_calls st' = p_calls st @ DeleteRecord rid # new \<and> list_all is_http new"
  by (auto simp: deleteRecord_def Let_def split: prod.splits sum.splits option.splits if_splits)

lemma http_not_update: "is_http c \<Longrightarrow> \<not> is_update c"
  by (cases c) auto

lemma all_http_not_update: "list_all is_http xs \<Longrightarrow> list_all (\<lambda>c. \<not> is_update c) xs"
  by (induction xs) (auto simp: http_not_update)

lemma updateRecord_calls:
  "updateRecord cl rid r st = (res, st') \<Longrightarrow>
   \<exists>new. p_calls st' = p_calls st @ UpdateRecord rid # new \<and> list_all (\<lambda>c. \<not> is_update c) new"
proof -
  assume a: "updateRecord cl rid r st = (res, st')"
  obtain dres st1 where d: "deleteRecord cl rid (st\<lparr> p_calls := p_calls st @ [UpdateRecord rid] \<rparr>) = (dres, st1)"
    by (cases "deleteRecord cl rid (st\<lparr> p_calls := p_calls st @ [UpdateRecord rid] \<rparr>)")
  from deleteRecord_calls [OF d] obtain n1 where
    n1: "p_calls st1 = p_calls st @ UpdateRecord rid # DeleteRecord rid # n1" "list_all is_http n1"
    by auto
  note http = all_http_not_update
  show ?thesis
  proof (cases dres)
    case (Inl e)
    with a d have "st' = st1" by (simp add: updateRecord_def Let_def)
    with n1 http show ?thesis by auto
  next
    case (Inr b)
    with a d have c: "createRecord cl r st1 = (res, st')" by (simp add: updateRecord_def Let_def)
    from createRecord_calls [OF c] obtain n2 where
      "p_calls st' = p_calls st1 @ CreateRecord (r_name r) (r_type r) # n2" "list_all is_http n2" by auto
    with n1 http show ?thesis by auto
  qed
qed

section \<open>deleteRecord\<close>

text \<open>
  Claim C10. For an id that no cached record carries, \<open>deleteRecord\<close> returns
  \<^verbatim>\<open>false\<close>, sends no request, and leaves the cache and the server as they were.
  Whenever \<open>deleteRecord\<close> changes the cache, the server answered the delete request
  with the status \<^verbatim>\<open>ok\<close>, the method returns \<^verbatim>\<open>true\<close>, and the cache has lost
  exactly the records of that id.
\<close>

theorem deleteRecord_cache:
  assumes "deleteRecord cl rid st = (res, st')"
  shows "(rid \<notin> r_id ` set (p_records st) \<longrightarrow>
            res = Inr False \<and> p_records st' = p_records st \<and> p_backend st' = p_backend st \<and>
            filter is_http (p_calls st') = filter is_http (p_calls st))
       \<and> (p_records st' \<noteq> p_records st \<longrightarrow>
            res = Inr True \<and>
            (\<exists>params b. http_delete cl params (p_backend st) = (Inr ''ok'', b) \<and>
                        p_calls st' = p_calls st @ [DeleteRecord rid, HttpDelete params]) \<and>
            p_records st' = filter (\<lambda>r. r_id r \<noteq> rid) (p_records st))"
proof -
  have none: "rid \<notin> r_id ` set (p_records st) \<Longrightarrow> find (\<lambda>r. r_id r = rid) (p_records st) = None"
    by (auto simp: find_None_iff)
  show ?thesis
    using assms
    by (auto simp: deleteRecord_def Let_def none split: prod.splits sum.splits option.splits if_splits)
qed

lemma example_cached_records:
  "p_records example_cached =
     [\<lparr> r_id = Some ''app.example.com-A-1.2.3.4'', r_type = Some ''A'', r_name = Some ''app.example.com'',
        r_content = JString ''1.2.3.4'', r_ttl = Some 300, r_priority = None, r_zone = None,
        r_manage = None, r_original = Some example_stored \<rparr>]"
  by (simp add: example_cached_def example_provider_def new_provider_def convertToStandardFormat_def
        example_stored_def js_or_def)

theorem deleteRecord_cache_witness:
  "Some ''other.example.com-A-5.6.7.8'' \<notin> r_id ` set (p_records example_cached)
   \<and> fst (deleteRecord memory_server (Some ''other.example.com-A-5.6.7.8'') example_cached) = Inr False
   \<and> p_records (snd (deleteRecord memory_server (Some ''other.example.com-A-5.6.7.8'') example_cached))
       = p_records example_cached
   \<and> p_records (snd (deleteRecord memory_server (Some ''app.example.com-A-1.2.3.4'') example_cached))
       \<noteq> p_records example_cached
   \<and> fst (deleteRecord memory_server (Some ''app.example.com-A-1.2.3.4'') example_cached) = Inr True
   \<and> p_records (snd (deleteRecord memory_server (Some ''app.example.com-A-1.2.3.4'') example_cached)) = []"
proof -
  have absent: "Some ''other.example.com-A-5.6.7.8'' \<notin> r_id ` set (p_records example_cached)"
    by (simp add: example_cached_records)
  have changed: "p_records (snd (deleteRecord memory_server (Some ''app.example.com-A-1.2.3.4'') example_cached))
       \<noteq> p_records example_cached"
    by (simp add: deleteRecord_def Let_def example_cached_records memory_server_def split: prod.splits)
  show ?thesis
    using absent changed
      deleteRecord_cache [of memory_server "Some ''other.example.com-A-5.6.7.8''" example_cached
        "fst (deleteRecord memory_server (Some ''other.example.com-A-5.6.7.8'') example_cached)"
        "snd (deleteRecord memory_server (Some ''other.example.com-A-5.6.7.8'') example_cached)"]
      deleteRecord_cache [of memory_server "Some ''app.example.com-A-1.2.3.4''" example_cached
        "fst (deleteRecord memory_server (Some ''app.example.com-A-1.2.3.4'') example_cached)"
        "snd (deleteRecord memory_server (Some ''app.example.com-A-1.2.3.4'') example_cached)"]
    by (simp add: example_cached_records)
qed

section \<open>A failure does not stop the batch\<close>


lemma batchLoop_outcomes:
  "batchLoop cl configs results st =
     (results @ succeeded (outcomes cl configs st), final_state cl configs st)"
proof (induction configs arbitrary: results st)
  case Nil
  show ?case by simp
next
  case (Cons config rest)
  obtain res st1 where e: "ensureRecord cl config st = (res, st1)"
    by (cases "ensureRecord cl config st")
  show ?case
  proof (cases res)
    case (Inl err)
    with e Cons show ?thesis by (simp add: log_failure_def)
  next
    case (Inr r)
    with e Cons show ?thesis by (cases r) simp_all
  qed
qed












section \<open>Update if and only if changed\<close>

lemma ensureRecord_updates_when_changed:
  assumes "find (\<lambda>r. r_name r = r_name config \<and> r_type r = r_type config) (p_records st) = Some existing"
      and "ensureRecord cl config st = (res, st')"
  shows "if \<not> strict_eq (r_content existing) (r_content config)
            \<or> (\<exists>n. r_ttl config = Some n \<and> n \<noteq> 0 \<and> r_ttl existing \<noteq> Some n)
         then \<exists>new. p_calls st' = p_calls st @ UpdateRecord (r_id existing) # new
                    \<and> list_all (\<lambda>c. \<not> is_update c) new
         else st' = st \<and> res = Inr None"
proof (cases "recordNeedsUpdate existing config")
  case True
  then have changed: "\<not> strict_eq (r_content existing) (r_content config)
            \<or> (\<exists>n. r_ttl config = Some n \<and> n \<noteq> 0 \<and> r_ttl existing \<noteq> Some n)"
    by (auto simp: recordNeedsUpdate_def Let_def split: option.splits)
  obtain ures ust where u: "updateRecord cl (r_id existing) config st = (ures, ust)"
    by (cases "updateRecord cl (r_id existing) config st")
  with assms True have "st' = ust"
    by (auto simp: ensureRecord_def split: sum.splits)
  with updateRecord_calls [OF u] changed show ?thesis by simp
next
  case False
  then have same: "\<not> (\<not> strict_eq (r_content existing) (r_content config)
            \<or> (\<exists>n. r_ttl config = Some n \<and> n \<noteq> 0 \<and> r_ttl existing \<noteq> Some n))"
    by (auto simp: recordNeedsUpdate_def Let_def split: option.splits)
  from assms False have "st' = st \<and> res = Inr None"
    by (simp add: ensureRecord_def)
  with same show ?thesis by simp
qed

lemma final_state_append:
  "final_state cl (xs @ ys) st = final_state cl ys (final_state cl xs st)"
  by (induction xs arbitrary: st) (auto split: prod.splits sum.splits)

lemma ensureRecord_calls:
  "ensureRecord cl config st = (res, st') \<Longrightarrow> \<exists>new. p_calls st' = p_calls st @ new"
  by (auto simp: ensureRecord_def split: option.splits prod.splits sum.splits if_splits
           dest!: createRecord_calls updateRecord_calls)

lemma final_state_calls: "\<exists>later. p_calls (final_state cl configs st) = p_calls st @ later"
proof (induction configs arbitrary: st)
  case Nil
  show ?case by simp
next
  case (Cons config rest)
  obtain res st1 where e: "ensureRecord cl config st = (res, st1)"
    by (cases "ensureRecord cl config st")
  from ensureRecord_calls [OF e] obtain new where n: "p_calls st1 = p_calls st @ new" by auto
  show ?case
  proof (cases res)
    case (Inl err)
    from Cons [of "log_failure config err st1"] obtain later where
      "p_calls (final_state cl rest (log_failure config err st1)) = p_calls (log_failure config err st1) @ later"
      by auto
    with Inl e n show ?thesis by (simp add: log_failure_def)
  next
    case (Inr r)
    from Cons [of st1] obtain later where
      "p_calls (final_state cl rest st1) = p_calls st1 @ later" by auto
    with Inr e n show ?thesis by simp
  qed
qed

lemma batchEnsureRecords_final_state:
  "getRecordsFromCache cl st = (Inr rs, st0) \<Longrightarrow> configs \<noteq> [] \<Longrightarrow>
   snd (batchEnsureRecords cl configs st) = final_state cl configs st0"
  by (simp add: batchEnsureRecords_def batchLoop_outcomes)

text \<open>
  Claim C2, as the code has it. The claim says that a specification whose content and
  TTL are identical to those of a cached record with its identity key causes no call.
  The batch looks a specification up by name and type only and compares it with the
  first record it finds. In a zone with two TXT records of one name, the specification
  that equals the second of them in name, type, content and TTL is compared with the
  first, found different and updated: one entry into \<open>updateRecord\<close>, five mutation
  calls in all, where the claim says none.
\<close>

theorem update_iff_changed_counterexample:
  "r_name (p_records two_TXT_provider ! 1) = r_name example_TXT_2
   \<and> r_type (p_records two_TXT_provider ! 1) = r_type example_TXT_2
   \<and> r_content (p_records two_TXT_provider ! 1) = r_content example_TXT_2
   \<and> r_ttl (p_records two_TXT_provider ! 1) = r_ttl example_TXT_2
   \<and> filter is_update (p_calls (snd (batchEnsureRecords memory_server [example_TXT_2] two_TXT_provider))) =
       [UpdateRecord (Some ''example.com-TXT-data'')]
   \<and> length (filter is_mutation
        (p_calls (snd (batchEnsureRecords memory_server [example_TXT_2] two_TXT_provider)))) = 5
   \<and> p_calls two_TXT_provider = []"
  by code_simp

text \<open>
  Claim C2, amended. Take a batch whose cache read succeeds and one of its
  specifications, \<open>config\<close>, with the specifications \<open>before\<close> and \<open>after\<close> it.
  Let the cache, when the turn of \<open>config\<close> comes, hold a record of its name and type,
  \<open>existing\<close> being the first such record (the one the batch looks up). The calls of
  the batch are those made up to then, followed by the calls \<open>mine\<close> made for
  \<open>config\<close> and by those made for the specifications after it. If the contents of
  \<open>existing\<close> and \<open>config\<close> differ, or the TTL of \<open>config\<close> is set and differs
  from the existing one, \<open>mine\<close> begins with the entry into \<open>updateRecord\<close> with the
  id of \<open>existing\<close> and holds no other such entry. Otherwise \<open>mine\<close> is empty and
  the state is untouched. A TTL is set when it is present and not 0: the provider reads a
  TTL of 0 as no TTL throughout (\<^verbatim>\<open>newRecord.ttl && ...\<close> here,
  \<^verbatim>\<open>record.ttl || 3600\<close> in the converter), and the TTLs of the data model are
  positive.
\<close>

theorem update_iff_changed:
  assumes "getRecordsFromCache cl st = (Inr rs, st0)"
      and "find (\<lambda>r. r_name r = r_name config \<and> r_type r = r_type config)
             (p_records (final_state cl before st0)) = Some existing"
  shows "\<exists>mine later.
           p_calls (final_state cl (before @ [config]) st0) = p_calls (final_state cl before st0) @ mine
         \<and> p_calls (snd (batchEnsureRecords cl (before @ config # after) st)) =
             p_calls (final_state cl before st0) @ mine @ later
         \<and> (if \<not> strict_eq (r_content existing) (r_content config)
                \<or> (\<exists>n. r_ttl config = Some n \<and> n \<noteq> 0 \<and> r_ttl existing \<noteq> Some n)
             then \<exists>new. mine = UpdateRecord (r_id existing) # new \<and> list_all (\<lambda>c. \<not> is_update c) new
             else mine = [] \<and> final_state cl (before @ [config]) st0 = final_state cl before st0)"
proof -
  let ?st1 = "final_state cl before st0"
  let ?st2 = "final_state cl (before @ [config]) st0"
  obtain res s where e: "ensureRecord cl config ?st1 = (res, s)"
    by (cases "ensureRecord cl config ?st1")
  have st2: "?st2 = (case res of Inl err \<Rightarrow> log_failure config err s | Inr r \<Rightarrow> s)"
    using e by (simp add: final_state_append split: sum.splits)
  then have c2: "p_calls ?st2 = p_calls s"
    by (simp add: log_failure_def split: sum.splits)
  from ensureRecord_calls [OF e] obtain mine where mine: "p_calls s = p_calls ?st1 @ mine" by auto
  have "before @ config # after = (before @ [config]) @ after" by simp
  then have "snd (batchEnsureRecords cl (before @ config # after) st) = final_state cl after ?st2"
    using batchEnsureRecords_final_state [OF assms(1), of "before @ config # after"]
    by (simp only: final_state_append) simp
  with final_state_calls [of cl after ?st2] obtain later where
    later: "p_calls (snd (batchEnsureRecords cl (before @ config # after) st)) = p_calls ?st2 @ later"
    by auto
  note step = ensureRecord_updates_when_changed [OF assms(2) e]
  show ?thesis
  proof (cases "\<not> strict_eq (r_content existing) (r_content config)
                \<or> (\<exists>n. r_ttl config = Some n \<and> n \<noteq> 0 \<and> r_ttl existing \<noteq> Some n)")
    case True
    with step mine have "\<exists>new. mine = UpdateRecord (r_id existing) # new \<and> list_all (\<lambda>c. \<not> is_update c) new"
      by auto
    with True c2 mine later show ?thesis by auto
  next
    case False
    with step have "s = ?st1 \<and> res = Inr None" by auto
    with st2 mine have "mine = [] \<and> ?st2 = ?st1" by simp
    with False c2 mine later show ?thesis by auto
  qed
qed

theorem update_iff_changed_witness:
  "(\<exists>mine later.
      p_calls (final_state memory_server [example_A_moved] example_cached) = p_calls example_cached @ mine
    \<and> p_calls (snd (batchEnsureRecords memory_server [example_A_moved] example_cached)) =
        p_calls example_cached @ mine @ later
    \<and> (\<exists>new. mine = UpdateRecord (Some ''app.example.com-A-1.2.3.4'') # new
              \<and> list_all (\<lambda>c. \<not> is_update c) new))
   \<and> (\<exists>mine later.
      p_calls (final_state memory_server [example_A] example_cached) = p_calls example_cached @ mine
    \<and> p_calls (snd (batchEnsureRecords memory_server [example_A] example_cached)) =
        p_calls example_cached @ mine @ later
    \<and> mine = [] \<and> final_state memory_server [example_A] example_cached = example_cached)"
proof -
  let ?existing = "\<lparr> r_id = Some ''app.example.com-A-1.2.3.4'', r_type = Some ''A'',
        r_name = Some ''app.example.com'', r_content = JString ''1.2.3.4'', r_ttl = Some 300,
        r_priority = None, r_zone = None, r_manage = None, r_original = Some example_stored \<rparr>"
  have g: "getRecordsFromCache memory_server example_cached = (Inr (p_records example_cached), example_cached)"
    by code_simp
  have f1: "find (\<lambda>r. r_name r = r_name example_A_moved \<and> r_type r = r_type example_A_moved)
              (p_records (final_state memory_server [] example_cached)) = Some ?existing"
    by (simp add: example_cached_records example_A_moved_def example_A_def)
  have f2: "find (\<lambda>r. r_name r = r_name example_A \<and> r_type r = r_type example_A)
              (p_records (final_state memory_server [] example_cached)) = Some ?existing"
    by (simp add: example_cached_records example_A_def)
  have c1: "\<not> strict_eq (r_content ?existing) (r_content example_A_moved)
            \<or> (\<exists>n. r_ttl example_A_moved = Some n \<and> n \<noteq> 0 \<and> r_ttl ?existing \<noteq> Some n)"
    by (simp add: example_A_moved_def example_A_def)
  have c2: "\<not> (\<not> strict_eq (r_content ?existing) (r_content example_A)
            \<or> (\<exists>n. r_ttl example_A = Some n \<and> n \<noteq> 0 \<and> r_ttl ?existing \<noteq> Some n))"
    by (simp add: example_A_def)
  have id: "r_id ?existing = Some ''app.example.com-A-1.2.3.4''" by simp
  have e: "final_state memory_server [] example_cached = example_cached" by simp
  have a: "[] @ example_A_moved # [] = [example_A_moved]" "[] @ [example_A_moved] = [example_A_moved]"
          "[] @ example_A # [] = [example_A]" "[] @ [example_A] = [example_A]"
    by simp_all
  note t1 = update_iff_changed [OF g f1, of "[]", unfolded if_P [OF c1] e a id]
  note t2 = update_iff_changed [OF g f2, of "[]", unfolded if_not_P [OF c2] e a]
  from t1 t2 show ?thesis by (intro conjI)
qed

section \<open>The manage flag\<close>

lemma validateRecord_manage [simp]: "validateRecord (with_manage f c) = validateRecord c"
  by (simp add: validateRecord_def with_manage_def Let_def cong: if_cong option.case_cong)

lemma convert_manage [simp]: "convertToTechnitiumFormat (with_manage f c) z = convertToTechnitiumFormat c z"
  by (simp add: convertToTechnitiumFormat_def with_manage_def Let_def cong: if_cong)

lemma needsUpdate_manage [simp]: "recordNeedsUpdate e (with_manage f c) = recordNeedsUpdate e c"
  by (simp add: recordNeedsUpdate_def with_manage_def Let_def cong: option.case_cong)

lemma name_type_manage [simp]:
  "r_name (with_manage f c) = r_name c" "r_type (with_manage f c) = r_type c"
  by (simp_all add: with_manage_def)

lemma createRecord_manage:
  "createRecord cl (with_manage f c) st =
     (case createRecord cl c st of (res, st') \<Rightarrow> (map_sum (\<lambda>e. e) (with_manage f) res, st'))"
  by (simp add: createRecord_def Let_def split: prod.splits sum.splits)

lemma updateRecord_manage:
  "updateRecord cl rid (with_manage f c) st =
     (case updateRecord cl rid c st of (res, st') \<Rightarrow> (map_sum (\<lambda>e. e) (with_manage f) res, st'))"
  by (simp add: updateRecord_def Let_def createRecord_manage split: prod.splits sum.splits)

lemma ensureRecord_manage:
  "ensureRecord cl (with_manage f c) st =
     (case ensureRecord cl c st of
        (res, st') \<Rightarrow> (map_sum (\<lambda>e. e) (map_option (with_manage f)) res, st'))"
  by (simp add: ensureRecord_def createRecord_manage updateRecord_manage
           split: option.splits prod.splits sum.splits)

lemma batchLoop_manage:
  "batchLoop cl (map (with_manage f) configs) (map (with_manage f) results) st =
     (case batchLoop cl configs results st of (rs, st') \<Rightarrow> (map (with_manage f) rs, st'))"
proof (induction configs arbitrary: results st)
  case Nil
  show ?case by simp
next
  case (Cons config rest)
  obtain res st1 where e: "ensureRecord cl config st = (res, st1)"
    by (cases "ensureRecord cl config st")
  show ?case
  proof (cases res)
    case (Inl err)
    with e Cons [of results] show ?thesis
      by (simp add: ensureRecord_manage)
  next
    case (Inr r)
    show ?thesis
    proof (cases r)
      case None
      with Inr e Cons [of results] show ?thesis by (simp add: ensureRecord_manage)
    next
      case (Some x)
      with Inr e Cons [of "results @ [x]"] show ?thesis by (simp add: ensureRecord_manage)
    qed
  qed
qed

text \<open>
  Claim C7, as the code has it. The claim says that a specification with
  \<open>manage = false\<close> is skipped. The provider never reads the flag: a batch whose
  only specification has \<open>manage = false\<close> looks it up, enters \<open>createRecord\<close>
  and sends the add request.
\<close>

theorem manage_false_counterexample:
  "fst (batchEnsureRecords memory_server [example_unmanaged] example_provider) = Inr [example_unmanaged]
   \<and> p_calls (snd (batchEnsureRecords memory_server [example_unmanaged] example_provider)) =
       [HttpGet,
        CreateRecord (Some ''app.example.com'') (Some ''A''),
        HttpAdd \<lparr> w_zone = Some ''example.com'', w_domain = Some ''app.example.com'',
                  w_type = Some ''A'', w_ttl = 300, w_ipAddress = JString ''1.2.3.4'',
                  w_cname = JUndefined, w_text = JUndefined, w_exchange = JUndefined,
                  w_preference = None, w_token = Some ''token'' \<rparr>,
        HttpGet]
   \<and> r_manage example_unmanaged = Some False"
  by code_simp

text \<open>
  Claim C7, amended. Whatever the \<open>manage\<close> flags of the specifications are set to,
  the batch makes the same calls and ends in the same state, and returns the same
  specifications (with the flags they were given). Leaving out the specifications with
  \<open>manage = false\<close> is the caller's part.
\<close>

theorem manage_flag_not_read:
  "batchEnsureRecords cl (map (with_manage f) configs) st =
     (case batchEnsureRecords cl configs st of
        (res, st') \<Rightarrow> (map_sum (\<lambda>e. e) (map (with_manage f)) res, st'))"
  using batchLoop_manage [of cl f configs "[]"]
  by (simp add: batchEnsureRecords_def split: prod.splits sum.splits)

theorem manage_flag_not_read_witness:
  "batchEnsureRecords memory_server [example_unmanaged] example_provider =
     (Inr [example_unmanaged], snd (batchEnsureRecords memory_server [example_A] example_provider))"
proof -
  have m: "map (with_manage (\<lambda>c. Some False)) [example_A] = [example_unmanaged]"
    by (simp add: with_manage_def example_unmanaged_def)
  have r: "fst (batchEnsureRecords memory_server [example_A] example_provider) = Inr [example_A]"
    by code_simp
  obtain res st' where b: "batchEnsureRecords memory_server [example_A] example_provider = (res, st')"
    by (cases "batchEnsureRecords memory_server [example_A] example_provider")
  with r have res: "res = Inr [example_A]" by simp
  have m1: "with_manage (\<lambda>c. Some False) example_A = example_unmanaged"
    by (simp add: with_manage_def example_unmanaged_def)
  from manage_flag_not_read [of memory_server "\<lambda>c. Some False" "[example_A]" example_provider]
  show ?thesis
    unfolding m b res by (simp add: m1)
qed

section \<open>Running a batch again\<close>








lemma key_of_converted [simp]: "record_key (convertToStandardFormat t) = zone_key t"
  by (simp add: record_key_def zone_key_def convertToStandardFormat_def)



lemma stored_record_params [simp]:
  "stored_record (p\<lparr> w_token := a, w_zone := b \<rparr>) = stored_record p"
  by (simp add: stored_record_def stored_rData_def)






lemma stored_of_key [simp]: "zone_key (stored_of c) = record_key c"
  by (simp add: stored_of_def stored_record_def convertToTechnitiumFormat_def zone_key_def
        record_key_def Let_def)

















section \<open>Conversion there and back\<close>

text \<open>
  Claim C3, as the code has it. The claim says that \<open>convertToStandardFormat\<close> applied
  to the result of \<open>convertToTechnitiumFormat\<close> gives back name, type, content and
  ttl. The two functions convert between different shapes: the first builds the flat
  parameters of a request (\<open>domain\<close>, \<open>ipAddress\<close>, ...), the second reads a
  record of a response (\<open>name\<close>, \<open>rData\<close>). Applied to the request object directly,
  the second finds neither a name nor a content. A record without ttl comes back with the
  ttl 3600 that the request was given, also by way of the server. And the content of an MX
  record, sent as \<open>exchange\<close>, is not among the keys (\<open>ipAddress\<close>, \<open>cname\<close>,
  \<open>text\<close>) that are read back, so the whole \<open>rData\<close> object becomes the content.
\<close>

theorem round_trip_counterexample:
  "r_name (convertToStandardFormat (request_as_record (convertToTechnitiumFormat example_A None))) = None
   \<and> r_content (convertToStandardFormat (request_as_record (convertToTechnitiumFormat example_A None)))
       = JUndefined
   \<and> r_name example_A = Some ''app.example.com''
   \<and> r_content example_A = JString ''1.2.3.4''
   \<and> r_ttl (convertToStandardFormat (stored_record
         (convertToTechnitiumFormat (example_A\<lparr> r_ttl := None \<rparr>) None))) = Some 3600
   \<and> r_content (convertToStandardFormat (stored_record (convertToTechnitiumFormat example_MX None)))
       = JObject [(''exchange'', JString ''mail.example.com''), (''preference'', JNumber 10)]
   \<and> r_content example_MX = JString ''mail.example.com''"
  by code_simp

text \<open>
  Claim C3, amended. For a record of type A, AAAA, CNAME, ANAME or TXT with a non-empty
  string as content and a ttl that is set and not 0: converting it to the request
  parameters, storing it as the server does (the name under \<open>name\<close>, the content
  under the key the request used inside \<open>rData\<close>) and converting the stored record
  back gives the original name, type, content and ttl.
\<close>

theorem round_trip_through_server:
  assumes "r_type record = Some ''A'' \<or> r_type record = Some ''AAAA'' \<or> r_type record = Some ''CNAME''
           \<or> r_type record = Some ''ANAME'' \<or> r_type record = Some ''TXT''"
      and "r_content record = JString c" and "c \<noteq> []"
      and "r_ttl record = Some n" and "n \<noteq> 0"
  shows "r_name (convertToStandardFormat (stored_record (convertToTechnitiumFormat record zone)))
           = r_name record
       \<and> r_type (convertToStandardFormat (stored_record (convertToTechnitiumFormat record zone)))
           = r_type record
       \<and> r_content (convertToStandardFormat (stored_record (convertToTechnitiumFormat record zone)))
           = r_content record
       \<and> r_ttl (convertToStandardFormat (stored_record (convertToTechnitiumFormat record zone)))
           = r_ttl record"
  using assms
  by (auto simp: convertToStandardFormat_def stored_record_def stored_rData_def
        convertToTechnitiumFormat_def js_or_def Let_def)

theorem round_trip_through_server_witness:
  "r_name (convertToStandardFormat (stored_record (convertToTechnitiumFormat example_A None)))
           = Some ''app.example.com''
   \<and> r_type (convertToStandardFormat (stored_record (convertToTechnitiumFormat example_A None)))
           = Some ''A''
   \<and> r_content (convertToStandardFormat (stored_record (convertToTechnitiumFormat example_A None)))
           = JString ''1.2.3.4''
   \<and> r_ttl (convertToStandardFormat (stored_record (convertToTechnitiumFormat example_A None)))
           = Some 300"
  using round_trip_through_server [of example_A "''1.2.3.4''" 300 None]
  by (simp add: example_A_def)

section \<open>A CNAME at the zone apex\<close>

text \<open>
  Claim C4, as the code has it. The claim says that a CNAME specification named like the
  zone is rejected before any request. The \<open>validateRecord\<close> that \<open>createRecord\<close>
  runs logs a warning and accepts it, and \<open>createRecord\<close> sends the add request.
\<close>

theorem apex_CNAME_counterexample:
  "validateRecord example_apex_CNAME =
     ([''Technitium: CNAME at zone apex is often restricted. Consider ANAME.''], Inr ())
   \<and> fst (createRecord memory_server example_apex_CNAME example_provider) = Inr example_apex_CNAME
   \<and> p_calls (snd (createRecord memory_server example_apex_CNAME example_provider)) =
       [CreateRecord (Some ''example.com'') (Some ''CNAME''),
        HttpAdd \<lparr> w_zone = Some ''example.com'', w_domain = Some ''example.com'',
                  w_type = Some ''CNAME'', w_ttl = 300, w_ipAddress = JUndefined,
                  w_cname = JString ''target.example.net'', w_text = JUndefined,
                  w_exchange = JUndefined, w_preference = None, w_token = Some ''token'' \<rparr>,
        HttpGet]
   \<and> r_name example_apex_CNAME = Some (p_zone example_provider)"
  by code_simp

text \<open>
  Claim C4, amended. A CNAME specification whose name is its zone passes the
  \<open>validateRecord\<close> of validator.js with a warning (given a content and a ttl that
  is not negative), and \<open>createRecord\<close> goes on to the add request. It is the method
  \<open>validateRecord\<close> of the class TechnitiumProvider that rejects every CNAME (in any
  letter case) whose hostname is the zone, with a descriptive error and without a request.
\<close>

theorem apex_CNAME_warned_or_rejected:
  "(r_type record = Some ''CNAME'' \<and> r_name record = r_zone record \<and> \<not> missing (r_name record)
      \<and> truthy (r_content record) \<and> (case r_ttl record of Some n \<Rightarrow> 0 \<le> n | None \<Rightarrow> True)
    \<longrightarrow> validateRecord record =
          ([''Technitium: CNAME at zone apex is often restricted. Consider ANAME.''], Inr ())
        \<and> (\<exists>params new. p_calls (snd (createRecord cl record st)) =
               p_calls st @ CreateRecord (r_name record) (r_type record) # HttpAdd params # new))
   \<and> (toUpperCase type = ''CNAME'' \<longrightarrow>
        TechnitiumProvider_validateRecord zone zone type content opts =
          Inl (Error (if zone = [] \<or> content = []
                      then ''Hostname, type, and content are required''
                      else ''CNAME records cannot be created at zone apex. Use A or ANAME instead.'')))"
proof (intro conjI impI)
  assume a: "r_type record = Some ''CNAME'' \<and> r_name record = r_zone record \<and> \<not> missing (r_name record)
      \<and> truthy (r_content record) \<and> (case r_ttl record of Some n \<Rightarrow> 0 \<le> n | None \<Rightarrow> True)"
  then show v: "validateRecord record =
          ([''Technitium: CNAME at zone apex is often restricted. Consider ANAME.''], Inr ())"
    by (auto simp: validateRecord_def Let_def split: option.splits)
  show "\<exists>params new. p_calls (snd (createRecord cl record st)) =
               p_calls st @ CreateRecord (r_name record) (r_type record) # HttpAdd params # new"
    by (auto simp: createRecord_def v Let_def split: prod.splits sum.splits
             dest!: refreshRecordCache_calls)
next
  assume "toUpperCase type = ''CNAME''"
  moreover from this have "type \<noteq> []" by (auto simp: toUpperCase_def)
  ultimately show "TechnitiumProvider_validateRecord zone zone type content opts =
          Inl (Error (if zone = [] \<or> content = []
                      then ''Hostname, type, and content are required''
                      else ''CNAME records cannot be created at zone apex. Use A or ANAME instead.''))"
    by (simp add: TechnitiumProvider_validateRecord_def)
qed

theorem apex_CNAME_warned_or_rejected_witness:
  "validateRecord example_apex_CNAME =
          ([''Technitium: CNAME at zone apex is often restricted. Consider ANAME.''], Inr ())
   \<and> (\<exists>params new. p_calls (snd (createRecord memory_server example_apex_CNAME example_provider)) =
         p_calls example_provider @ CreateRecord (Some ''example.com'') (Some ''CNAME'') # HttpAdd params # new)
   \<and> TechnitiumProvider_validateRecord ''example.com'' ''example.com'' ''cname'' ''target.example.net''
        no_options =
       Inl (Error ''CNAME records cannot be created at zone apex. Use A or ANAME instead.'')"
proof -
  have u: "toUpperCase ''cname'' = ''CNAME''"
    by code_simp
  have v: "r_type example_apex_CNAME = Some ''CNAME'' \<and> r_name example_apex_CNAME = r_zone example_apex_CNAME
      \<and> \<not> missing (r_name example_apex_CNAME) \<and> truthy (r_content example_apex_CNAME)
      \<and> (case r_ttl example_apex_CNAME of Some n \<Rightarrow> 0 \<le> n | None \<Rightarrow> True)"
    by (simp add: example_apex_CNAME_def example_A_def)
  have n: "r_name example_apex_CNAME = Some ''example.com''" "r_type example_apex_CNAME = Some ''CNAME''"
    by (simp_all add: example_apex_CNAME_def example_A_def)
  note t = apex_CNAME_warned_or_rejected [of example_apex_CNAME memory_server example_provider
          "''cname''" "''example.com''" "''target.example.net''" no_options]
  from t [THEN conjunct1, rule_format, OF v]
  have p1: "validateRecord example_apex_CNAME =
          ([''Technitium: CNAME at zone apex is often restricted. Consider ANAME.''], Inr ())
     \<and> (\<exists>params new. p_calls (snd (createRecord memory_server example_apex_CNAME example_provider)) =
         p_calls example_provider @ CreateRecord (Some ''example.com'') (Some ''CNAME'') # HttpAdd params # new)"
    by (simp only: n)
  from t [THEN conjunct2, rule_format, OF u]
  have p2: "TechnitiumProvider_validateRecord ''example.com'' ''example.com'' ''cname'' ''target.example.net''
        no_options =
       Inl (Error ''CNAME records cannot be created at zone apex. Use A or ANAME instead.'')"
    by simp
  from p1 p2 show ?thesis by simp
qed

section \<open>An A record with an invalid address\<close>

lemma class_validateRecord_rejects_invalid_IPv4:
  "toUpperCase type = ''A'' \<Longrightarrow> hostname \<noteq> [] \<Longrightarrow> content \<noteq> [] \<Longrightarrow> \<not> isValidIPv4 content \<Longrightarrow>
   TechnitiumProvider_validateRecord zone hostname type content opts =
     Inl (Error (''Invalid IPv4 address: '' @ content))"
  by (auto simp: TechnitiumProvider_validateRecord_def toUpperCase_def)

text \<open>
  Claim C5, on the input of the spec: an A record with the content \<^verbatim>\<open>999.1.1.1\<close>. The
  \<open>validateRecord\<close> that \<open>createRecord\<close> runs accepts it and the add request is
  sent with that address; \<open>isValidIPv4\<close> and the \<open>validateRecord\<close> of the class,
  which \<open>createRecord\<close> does not call, reject it.
\<close>

theorem invalid_IPv4_reaches_backend:
  "validateRecord example_bad_A = ([], Inr ())
   \<and> fst (createRecord memory_server example_bad_A example_provider) = Inr example_bad_A
   \<and> p_calls (snd (createRecord memory_server example_bad_A example_provider)) =
       [CreateRecord (Some ''app.example.com'') (Some ''A''),
        HttpAdd \<lparr> w_zone = Some ''example.com'', w_domain = Some ''app.example.com'',
                  w_type = Some ''A'', w_ttl = 300, w_ipAddress = JString ''999.1.1.1'',
                  w_cname = JUndefined, w_text = JUndefined, w_exchange = JUndefined,
                  w_preference = None, w_token = Some ''token'' \<rparr>,
        HttpGet]
   \<and> isValidIPv4 ''999.1.1.1'' = False
   \<and> TechnitiumProvider_validateRecord ''example.com'' ''app.example.com'' ''A'' ''999.1.1.1'' no_options =
       Inl (Error ''Invalid IPv4 address: 999.1.1.1'')"
  by code_simp

section \<open>The IP resolver, one caller\<close>

lemma updatePublicIPs_returns:
  "\<not> m_ipUpdateInProgress st \<Longrightarrow>
   \<exists>st1. updatePublicIPs sv st = Some (m_ipCache st1, st1) \<and> \<not> m_ipUpdateInProgress st1"
  by (simp add: updatePublicIPs_def Let_def split: prod.splits)

lemma fallback_is_tried:
  assumes "\<not> m_ipUpdateInProgress st" and "m_PUBLIC_IP st = None" and "s_ipify sv = Inl e"
      and "updatePublicIPs sv st = Some (cache, st1)"
  shows "prefix (m_requests st @ [Ipify, IfconfigMe]) (m_requests st1)"
  using assms
  by (auto simp: updatePublicIPs_def Let_def split: prod.splits sum.splits if_splits)

lemma both_fail_overwrites:
  assumes "\<not> m_ipUpdateInProgress st" and "m_PUBLIC_IP st = None"
      and "s_ipify sv = Inl e1" and "s_ifconfig_me sv = Inl e2"
      and "updatePublicIPs sv st = Some (cache, st1)"
  shows "c_ipv4 cache = JUndefined \<and> c_ipv4 (m_ipCache st1) = JUndefined"
  using assms
  by (auto simp: updatePublicIPs_def Let_def split: prod.splits sum.splits if_splits)

text \<open>
  Claim C9, at a stale cache that holds the address \<^verbatim>\<open>203.0.113.7\<close>, with no address
  in the environment and with all lookup services failing. The fallback is tried after the
  primary service, nothing is thrown and the failure is logged, as the claim says. But the
  refresh then stores the \<^verbatim>\<open>undefined\<close> it is left with: the cached address is lost,
  and \<open>getPublicIP\<close> returns \<^verbatim>\<open>undefined\<close>.
\<close>

theorem failed_refresh_loses_cached_IPv4:
  "c_ipv4 (m_ipCache example_manager) = JString ''203.0.113.7''
   \<and> map_option fst (getPublicIP failing_services example_manager) = Some JUndefined
   \<and> map_option (\<lambda>r. m_ipCache (snd r)) (getPublicIP failing_services example_manager) =
       Some \<lparr> c_ipv4 = JUndefined, c_ipv6 = JUndefined, c_lastCheck = 7200000 \<rparr>
   \<and> map_option (\<lambda>r. m_requests (snd r)) (getPublicIP failing_services example_manager) =
       Some [Ipify, IfconfigMe, Ipify6]
   \<and> map_option (\<lambda>r. m_log (snd r)) (getPublicIP failing_services example_manager) =
       Some [(Err, ''Failed to fetch public IPv4 address: timeout of 5000ms exceeded'')]"
  by code_simp

section \<open>Callers during a refresh\<close>

lemma finish_requests: "finish v st = (t, st') \<Longrightarrow> m_requests st' = m_requests st"
  by (auto simp: finish_def Let_def split: if_splits)

lemma lookupIPv6_requests: "lookupIPv6 v st = (t, st') \<Longrightarrow> prefix (m_requests st) (m_requests st')"
  by (auto simp: lookupIPv6_def split: if_splits dest: finish_requests)

lemma resume_requests: "resume sv t st = (t', st') \<Longrightarrow> prefix (m_requests st) (m_requests st')"
  by (cases t) (auto split: if_splits sum.splits dest: finish_requests lookupIPv6_requests)

lemma settle_requests: "settle sv t st = (t', st') \<Longrightarrow> prefix (m_requests st) (m_requests st')"
  by (auto simp: settle_def split: prod.splits dest!: resume_requests)

lemma finish_flag:
  "finish v st = (t, st') \<Longrightarrow> (\<exists>c. t = Returned c) \<and> \<not> m_ipUpdateInProgress st'"
  by (auto simp: finish_def Let_def split: if_splits)

lemma lookupIPv6_flag:
  "lookupIPv6 v st = (t, st') \<Longrightarrow> m_ipUpdateInProgress st \<Longrightarrow>
   (in_flight t \<and> m_ipUpdateInProgress st') \<or> ((\<exists>c. t = Returned c) \<and> \<not> m_ipUpdateInProgress st')"
  by (auto simp: lookupIPv6_def split: if_splits dest: finish_flag)

lemma resume_flag:
  "in_flight t \<Longrightarrow> m_ipUpdateInProgress st \<Longrightarrow> resume sv t st = (t', st') \<Longrightarrow>
   (in_flight t' \<and> m_ipUpdateInProgress st') \<or> ((\<exists>c. t' = Returned c) \<and> \<not> m_ipUpdateInProgress st')"
  by (cases t) (auto split: sum.splits dest: finish_flag lookupIPv6_flag)

lemma lookupIPv6_settles:
  "lookupIPv6 v st = (t, st') \<Longrightarrow> t = AwaitIpify6 v \<or> (\<exists>c. t = Returned c)"
  by (auto simp: lookupIPv6_def split: if_splits dest: finish_flag)

lemma settle_returned:
  "in_flight t \<Longrightarrow> settle sv t st = (t3, s3) \<Longrightarrow> \<exists>c. t3 = Returned c"
  by (cases t)
     (auto simp: settle_def split: prod.splits sum.splits
           dest!: lookupIPv6_settles finish_flag)

lemma settle_resume:
  assumes "in_flight t" and "resume sv t st = (t', st')"
  shows "settle sv t' st' = settle sv t st"
proof -
  obtain t3 s3 where s: "settle sv t st = (t3, s3)" by (cases "settle sv t st")
  from settle_returned [OF assms(1) s] obtain c where c: "t3 = Returned c" by auto
  obtain t1 s1 where r1: "resume sv t' st' = (t1, s1)" by (cases "resume sv t' st'")
  obtain t2 s2 where r2: "resume sv t1 s1 = (t2, s2)" by (cases "resume sv t1 s1")
  from s assms(2) r1 r2 have "t2 = t3 \<and> s2 = s3" by (simp add: settle_def)
  with c r1 r2 have "settle sv t' st' = (Returned c, s3)" by (simp add: settle_def)
  with s c show ?thesis by simp
qed

lemma settle_Returned [simp]: "settle sv (Returned c) st = (Returned c, st)"
  by (simp add: settle_def)

lemma enter_agrees:
  assumes "\<not> m_ipUpdateInProgress st0"
      and "updatePublicIPs sv st0 = Some (cache, st1)"
      and "enter st0 = (t0, s0)"
  shows "settle sv t0 s0 = (Returned cache, st1)"
  using assms
  by (auto simp: updatePublicIPs_def enter_def lookupIPv6_def finish_def settle_def Let_def
           split: prod.splits sum.splits if_splits)

lemma enter_requests: "enter st = (t, st') \<Longrightarrow> prefix (m_requests st) (m_requests st')"
  by (auto simp: enter_def Let_def split: if_splits dest!: lookupIPv6_requests)

lemma enter_flag:
  "\<not> m_ipUpdateInProgress st \<Longrightarrow> enter st = (t, st') \<Longrightarrow>
   (in_flight t \<and> m_ipUpdateInProgress st') \<or> ((\<exists>c. t = Returned c) \<and> \<not> m_ipUpdateInProgress st')"
  by (auto simp: enter_def Let_def split: if_splits dest!: lookupIPv6_flag)

lemma waiter_in_flight: "m_ipUpdateInProgress st \<Longrightarrow> waiter cache st t \<Longrightarrow> t = Waiting"
  by (cases t) auto

lemma waiters_in_flight:
  "m_ipUpdateInProgress st \<Longrightarrow> list_all (waiter cache st) ts \<Longrightarrow> list_all (waiter cache st') ts"
  by (induction ts) (auto dest: waiter_in_flight)

lemma list_all_update: "list_all P xs \<Longrightarrow> P x \<Longrightarrow> list_all P (xs[n := x])"
  by (induction xs arbitrary: n) (auto split: nat.splits)

lemma tl_update: "0 < i \<Longrightarrow> tl (xs[i := x]) = (tl xs)[i - 1 := x]"
  by (cases xs; cases i) simp_all

lemma hd_update: "0 < i \<Longrightarrow> hd (xs[i := x]) = hd xs"
  by (cases xs; cases i) simp_all

lemma nth_tl: "0 < i \<Longrightarrow> i < length xs \<Longrightarrow> xs ! i = tl xs ! (i - 1)"
  by (cases xs; cases i) simp_all

lemma one_refresh_start:
  assumes "\<not> m_ipUpdateInProgress st0" and "updatePublicIPs sv st0 = Some (cache, st1)"
  shows "one_refresh sv st0 cache st1 (step sv Invoke (st0, []))"
proof -
  obtain t0 s0 where e: "enter st0 = (t0, s0)" by (cases "enter st0")
  note s = enter_agrees [OF assms e]
  from enter_flag [OF assms(1) e] s
  have "(in_flight t0 \<or> t0 = Returned cache) \<and> m_ipUpdateInProgress s0 = in_flight t0"
    by auto
  with s e enter_requests [OF e] settle_requests [OF s] show ?thesis
    by (simp add: one_refresh_def)
qed

lemma one_refresh_invoke:
  assumes "one_refresh sv st0 cache st1 (st, ts)" and "m_ipUpdateInProgress st"
  shows "one_refresh sv st0 cache st1 (step sv Invoke (st, ts))"
  using assms by (auto simp: one_refresh_def enter_def)

lemma one_refresh_first:
  assumes inv: "one_refresh sv st0 cache st1 (st, ts)"
  shows "one_refresh sv st0 cache st1 (step sv (Resume 0) (st, ts))"
proof -
  from inv have ne: "ts \<noteq> []" and s: "settle sv (hd ts) st = (Returned cache, st1)"
    and h: "in_flight (hd ts) \<or> hd ts = Returned cache"
    and f: "m_ipUpdateInProgress st = in_flight (hd ts)"
    and p0: "prefix (m_requests st0) (m_requests st)"
    and w: "list_all (waiter cache st) (tl ts)"
    by (auto simp: one_refresh_def)
  from ne have n0: "ts ! 0 = hd ts" by (simp add: hd_conv_nth)
  obtain t' st' where r: "resume sv (hd ts) st = (t', st')" by (cases "resume sv (hd ts) st")
  from ne have upd: "hd (ts[0 := t']) = t'" "tl (ts[0 := t']) = tl ts" "ts[0 := t'] \<noteq> []"
    by (cases ts; simp)+
  show ?thesis
  proof (cases "in_flight (hd ts)")
    case True
    note s' = settle_resume [OF True r]
    with s have s1: "settle sv t' st' = (Returned cache, st1)" by simp
    from resume_flag [OF True _ r] f True
    have fl: "(in_flight t' \<and> m_ipUpdateInProgress st') \<or>
              ((\<exists>c. t' = Returned c) \<and> \<not> m_ipUpdateInProgress st')" by simp
    with s1 have h': "(in_flight t' \<or> t' = Returned cache) \<and> m_ipUpdateInProgress st' = in_flight t'"
      by auto
    from p0 resume_requests [OF r] have p0': "prefix (m_requests st0) (m_requests st')"
      by (rule prefix_order.trans)
    from f True w have w': "list_all (waiter cache st') (tl ts)"
      by (auto intro: waiters_in_flight)
    from ne n0 r s1 h' p0' settle_requests [OF s1] w' upd show ?thesis
      by (simp add: one_refresh_def)
  next
    case False
    with h have "hd ts = Returned cache" by simp
    with ne n0 have "step sv (Resume 0) (st, ts) = (st, ts)"
      by (simp add: list_update_same_conv)
    with inv show ?thesis by simp
  qed
qed

lemma one_refresh_other:
  assumes inv: "one_refresh sv st0 cache st1 (st, ts)" and c: "cache = m_ipCache st1"
      and i: "0 < i" "i < length ts"
  shows "one_refresh sv st0 cache st1 (step sv (Resume i) (st, ts))"
proof -
  from inv have s: "settle sv (hd ts) st = (Returned cache, st1)"
    and h: "in_flight (hd ts) \<or> hd ts = Returned cache"
    and f: "m_ipUpdateInProgress st = in_flight (hd ts)"
    and w: "list_all (waiter cache st) (tl ts)"
    by (auto simp: one_refresh_def)
  from i have "i - 1 < length (tl ts)" by (cases ts) auto
  with w have "waiter cache st (tl ts ! (i - 1))" by (simp add: list_all_length)
  with i have wt: "waiter cache st (ts ! i)" by (simp add: nth_tl)
  have fin: "\<not> m_ipUpdateInProgress st \<Longrightarrow> m_ipCache st = cache"
  proof -
    assume "\<not> m_ipUpdateInProgress st"
    with f h have "hd ts = Returned cache" by simp
    with s have "st = st1" by simp
    with c show ?thesis by simp
  qed
  have "\<exists>t'. resume sv (ts ! i) st = (t', st) \<and> waiter cache st t'"
    using wt fin by (cases "ts ! i") auto
  then obtain t' where r: "resume sv (ts ! i) st = (t', st)" and wt': "waiter cache st t'"
    by auto
  from w wt' have "list_all (waiter cache st) ((tl ts)[i - 1 := t'])"
    by (rule list_all_update)
  with inv i r show ?thesis
    by (simp add: one_refresh_def hd_update tl_update)
qed

lemma one_refresh_step:
  assumes "one_refresh sv st0 cache st1 sys" and "cache = m_ipCache st1"
      and "e = Invoke \<Longrightarrow> m_ipUpdateInProgress (fst sys)"
  shows "one_refresh sv st0 cache st1 (step sv e sys)"
proof (cases sys)
  case (Pair st ts)
  show ?thesis
  proof (cases e)
    case Invoke
    with assms Pair show ?thesis by (simp add: one_refresh_invoke del: step.simps)
  next
    case (Resume i)
    show ?thesis
    proof (cases "i = 0")
      case True
      with assms Pair Resume show ?thesis by (simp add: one_refresh_first del: step.simps)
    next
      case False
      show ?thesis
      proof (cases "i < length ts")
        case True
        with False assms Pair Resume show ?thesis by (simp add: one_refresh_other del: step.simps)
      next
        case False
        with assms Pair Resume show ?thesis by simp
      qed
    qed
  qed
qed

lemma one_refresh_run:
  "one_refresh sv st0 cache st1 sys \<Longrightarrow> cache = m_ipCache st1 \<Longrightarrow> invoked_in_flight sv es sys \<Longrightarrow>
   one_refresh sv st0 cache st1 (run sv es sys)"
proof (induction es arbitrary: sys)
  case Nil
  then show ?case by simp
next
  case (Cons e es)
  show ?case
  proof (cases e)
    case Invoke
    with Cons.prems have "one_refresh sv st0 cache st1 (step sv e sys)"
      and "invoked_in_flight sv es (step sv e sys)"
      by (auto intro: one_refresh_step)
    with Cons.IH Cons.prems(2) show ?thesis by simp
  next
    case (Resume i)
    with Cons.prems have "one_refresh sv st0 cache st1 (step sv e sys)"
      and "invoked_in_flight sv es (step sv e sys)"
      by (auto intro: one_refresh_step)
    with Cons.IH Cons.prems(2) show ?thesis by simp
  qed
qed

lemma waiter_not_in_flight: "waiter cache st t \<Longrightarrow> \<not> in_flight t"
  by (cases t) auto

lemma waiter_settled: "st = st1 \<or> m_ipUpdateInProgress st \<Longrightarrow> waiter cache st t \<Longrightarrow> settled cache st1 st t"
  by (cases t) auto

lemma run_append: "run sv (es @ fs) sys = run sv fs (run sv es sys)"
  by (induction es arbitrary: sys) auto

lemma refresh_runs_out:
  assumes inv: "one_refresh sv st0 cache st1 (st, ts)"
  shows "run sv [Resume 0, Resume 0, Resume 0] (st, ts) = (st1, ts[0 := Returned cache])"
proof -
  from inv have ne: "ts \<noteq> []" and s: "settle sv (hd ts) st = (Returned cache, st1)"
    by (auto simp: one_refresh_def)
  from ne have n0: "ts ! 0 = hd ts" by (simp add: hd_conv_nth)
  with ne s show ?thesis
    by (auto simp: settle_def split: prod.splits)
qed

lemma waiter_runs_out:
  assumes "\<not> m_ipUpdateInProgress st" and "waiter (m_ipCache st) st (ts ! i)" and "i < length ts"
  shows "run sv [Resume i, Resume i] (st, ts) = (st, ts[i := Returned (m_ipCache st)])"
  using assms by (cases "ts ! i") (auto simp: list_update_same_conv)

lemma waiters_run_out:
  assumes "\<not> m_ipUpdateInProgress st"
  shows "n - k = d \<Longrightarrow> length ts = n \<Longrightarrow> k \<le> n \<Longrightarrow> list_all (waiter (m_ipCache st) st) (drop k ts) \<Longrightarrow>
         run sv (concat (map (\<lambda>i. [Resume i, Resume i]) [k..<n])) (st, ts) =
           (st, take k ts @ replicate (n - k) (Returned (m_ipCache st)))"
proof (induction d arbitrary: k ts)
  case 0
  then show ?case by simp
next
  case (Suc d)
  then have k: "k < n" by simp
  with Suc.prems have kl: "k < length ts" by simp
  with Suc.prems(4) have wk: "waiter (m_ipCache st) st (ts ! k)"
    by (simp add: Cons_nth_drop_Suc [symmetric])
  let ?ts = "ts[k := Returned (m_ipCache st)]"
  from waiter_runs_out [OF assms wk kl]
  have two: "run sv [Resume k, Resume k] (st, ts) = (st, ?ts)" .
  from Suc.prems(4) kl have rest: "list_all (waiter (m_ipCache st) st) (drop (Suc k) ?ts)"
    by (simp add: Cons_nth_drop_Suc [symmetric])
  from Suc.prems k have "n - Suc k = d" "length ?ts = n" "Suc k \<le> n" by simp_all
  from Suc.IH [OF this rest]
  have ih: "run sv (concat (map (\<lambda>i. [Resume i, Resume i]) [Suc k..<n])) (st, ?ts) =
           (st, take (Suc k) ?ts @ replicate (n - Suc k) (Returned (m_ipCache st)))" .
  from kl have tk: "take (Suc k) ?ts = take k ts @ [Returned (m_ipCache st)]"
    by (simp add: take_Suc_conv_app_nth)
  from k have rep: "replicate (n - k) (Returned (m_ipCache st)) =
                    Returned (m_ipCache st) # replicate (n - Suc k) (Returned (m_ipCache st))"
    by (cases "n - k") (simp_all add: Suc_diff_Suc)
  from k have up: "[k..<n] = k # [Suc k..<n]" by (simp add: upt_conv_Cons)
  have "run sv (concat (map (\<lambda>i. [Resume i, Resume i]) [k..<n])) (st, ts) =
        run sv (concat (map (\<lambda>i. [Resume i, Resume i]) [Suc k..<n]))
          (run sv [Resume k, Resume k] (st, ts))"
    unfolding up by (simp del: step.simps)
  with two ih tk rep show ?case by simp
qed

lemma all_run_out:
  assumes inv: "one_refresh sv st0 cache st1 (st, ts)" and c: "cache = m_ipCache st1"
  shows "run sv (drain (length ts)) (st, ts) = (st1, replicate (length ts) (Returned cache))"
proof -
  let ?ts = "ts[0 := Returned cache]"
  note three = refresh_runs_out [OF inv]
  have inv1: "one_refresh sv st0 cache st1 (st1, ?ts)"
    using one_refresh_run [OF inv c, of "[Resume 0, Resume 0, Resume 0]"] three
    by (simp del: step.simps run.simps add: run.simps(1) )
  from inv have ne: "ts \<noteq> []" by (simp add: one_refresh_def)
  then have hd: "hd ?ts = Returned cache" by (cases ts) simp_all
  from inv1 hd have f: "\<not> m_ipUpdateInProgress st1"
    and w: "list_all (waiter cache st1) (tl ?ts)"
    by (auto simp: one_refresh_def)
  from ne have tl: "tl ?ts = drop 1 ?ts" by (simp add: drop_Suc)
  from ne have one: "1 \<le> length ?ts" by (cases ts) auto
  from w c tl have w': "list_all (waiter (m_ipCache st1) st1) (drop 1 ?ts)" by simp
  from waiters_run_out [OF f refl _ one w', of sv] c
  have rest: "run sv (concat (map (\<lambda>i. [Resume i, Resume i]) [1..<length ts])) (st1, ?ts) =
      (st1, take 1 ?ts @ replicate (length ts - 1) (Returned cache))"
    by simp
  from ne have eq: "take 1 ?ts @ replicate (length ts - 1) (Returned cache) =
                replicate (length ts) (Returned cache)"
    by (cases ts) (simp_all add: replicate_Suc [symmetric] del: replicate_Suc)
  have "run sv (drain (length ts)) (st, ts) =
        run sv (concat (map (\<lambda>i. [Resume i, Resume i]) [1..<length ts]))
          (run sv [Resume 0, Resume 0, Resume 0] (st, ts))"
    unfolding drain_def by (rule run_append)
  then show ?thesis
    by (simp only: three rest eq)
qed

lemma run_alone:
  assumes "\<not> m_ipUpdateInProgress st0" and "updatePublicIPs sv st0 = Some (cache, st1)"
  shows "run sv [Invoke, Resume 0, Resume 0, Resume 0] (st0, []) = (st1, [Returned cache])"
proof -
  obtain t0 s0 where e: "enter st0 = (t0, s0)" by (cases "enter st0")
  from enter_agrees [OF assms e] e show ?thesis
    by (auto simp: settle_def split: prod.splits)
qed

text \<open>
  Claim C8, as the code has it. A caller that finds a refresh in progress does not wait
  for that refresh: every 100 ms it reads the flag, and it returns the cache once it
  reads the flag clear. A second caller invokes \<open>updatePublicIPs\<close> while the refresh
  of the first is in flight. That refresh ends, and before the next poll of the second
  caller a third caller invokes \<open>updatePublicIPs\<close>, finds the flag clear and starts a
  refresh of its own. The second caller reads the flag set again and returns after the
  later refresh, with the result of that one: the first caller has received one address
  and the second caller another, and two sequences of lookups have gone out. The
  same schedule with unchanged lookup services sends every lookup twice.
\<close>

theorem single_flight_counterexample:
  "\<not> m_ipUpdateInProgress example_manager
   \<and> updatePublicIPs fallback_services example_manager = Some (example_result, example_refreshed)
   \<and> invoked_in_flight fallback_services [Invoke, Resume 0, Resume 0, Resume 0]
        (step fallback_services Invoke (example_manager, []))
   \<and> run fallback_services [Invoke, Invoke, Resume 0, Resume 0, Resume 0] (example_manager, []) =
        (example_refreshed, [Returned example_result, Waiting])
   \<and> snd (run later_services [Invoke, Resume 1, Resume 2, Resume 2, Resume 1, Resume 1]
        (example_refreshed, [Returned example_result, Waiting])) =
        [Returned example_result, Returned later_result, Returned later_result]
   \<and> m_requests (fst (run later_services [Invoke, Resume 1, Resume 2, Resume 2, Resume 1, Resume 1]
        (example_refreshed, [Returned example_result, Waiting]))) =
        [Ipify, IfconfigMe, Ipify6, Ipify, Ipify6]
   \<and> c_ipv4 later_result \<noteq> c_ipv4 example_result
   \<and> \<not> invoked_in_flight fallback_services late_caller_schedule
        (step fallback_services Invoke (example_manager, []))
   \<and> m_requests (fst (run fallback_services (Invoke # late_caller_schedule) (example_manager, []))) =
        [Ipify, IfconfigMe, Ipify6, Ipify, IfconfigMe, Ipify6]
   \<and> \<not> prefix (m_requests (fst (run fallback_services (Invoke # late_caller_schedule) (example_manager, []))))
          (m_requests example_refreshed)"
  by code_simp

text \<open>
  Claim C8, amended. A first caller invokes \<open>updatePublicIPs\<close> on a manager at rest;
  alone, its refresh would return \<open>cache\<close> and leave the manager in \<open>st1\<close>. Further
  callers invoke it in any number, each at a moment at which that refresh is in progress
  and none after it has ended, and the segments of all of them interleave in any order.
  Then, at every moment: none of the further callers awaits a lookup service, and the
  requests sent so far are an initial part of the requests the refresh sends when alone
  (one sequence of lookups); whoever has returned has returned \<open>cache\<close>, and then the
  refresh is complete (the manager is in \<open>st1\<close>); and letting the system run out brings
  every caller to return \<open>cache\<close>.
\<close>

theorem single_flight:
  assumes "\<not> m_ipUpdateInProgress st0"
      and "updatePublicIPs sv st0 = Some (cache, st1)"
      and "invoked_in_flight sv es (step sv Invoke (st0, []))"
      and "run sv (Invoke # es) (st0, []) = (st, ts)"
  shows "list_all (\<lambda>t. \<not> in_flight t) (tl ts)
       \<and> prefix (m_requests st0) (m_requests st) \<and> prefix (m_requests st) (m_requests st1)
       \<and> list_all (settled cache st1 st) ts
       \<and> run sv (drain (length ts)) (st, ts) = (st1, replicate (length ts) (Returned cache))"
proof -
  from assms(1,2) have c: "cache = m_ipCache st1"
    by (auto dest: updatePublicIPs_returns [where sv = sv])
  from one_refresh_run [OF one_refresh_start [OF assms(1,2)] c assms(3)] assms(4)
  have inv: "one_refresh sv st0 cache st1 (st, ts)" by simp
  then have ne: "ts \<noteq> []" and s: "settle sv (hd ts) st = (Returned cache, st1)"
    and h: "in_flight (hd ts) \<or> hd ts = Returned cache"
    and f: "m_ipUpdateInProgress st = in_flight (hd ts)"
    and p: "prefix (m_requests st0) (m_requests st)" "prefix (m_requests st) (m_requests st1)"
    and w: "list_all (waiter cache st) (tl ts)"
    by (auto simp: one_refresh_def)
  from w have a: "list_all (\<lambda>t. \<not> in_flight t) (tl ts)"
    by (induction "tl ts") (auto simp: list_all_iff dest: waiter_not_in_flight)
  have eq: "st = st1 \<or> m_ipUpdateInProgress st"
  proof (cases "in_flight (hd ts)")
    case True
    with f show ?thesis by simp
  next
    case False
    with h s show ?thesis by simp
  qed
  have hd_ok: "settled cache st1 st (hd ts)"
    using h s by (cases "hd ts") auto
  from w eq have "list_all (settled cache st1 st) (tl ts)"
    by (auto simp: list_all_iff intro: waiter_settled)
  with hd_ok ne have b: "list_all (settled cache st1 st) ts"
    by (cases ts) auto
  note d = all_run_out [OF inv c]
  from a p b d show ?thesis by simp
qed

theorem single_flight_witness:
  "\<not> m_ipUpdateInProgress example_manager
   \<and> updatePublicIPs fallback_services example_manager = Some (example_result, example_refreshed)
   \<and> invoked_in_flight fallback_services example_schedule
        (step fallback_services Invoke (example_manager, []))
   \<and> run fallback_services (Invoke # example_schedule) (example_manager, []) =
        (example_refreshed, [Returned example_result, Returned example_result, Returned example_result])
   \<and> list_all (\<lambda>t. \<not> in_flight t)
        (tl [Returned example_result, Returned example_result, Returned example_result])
   \<and> prefix (m_requests example_manager) (m_requests example_refreshed)
   \<and> list_all (settled example_result example_refreshed example_refreshed)
        [Returned example_result, Returned example_result, Returned example_result]
   \<and> run fallback_services (drain 3)
        (example_refreshed, [Returned example_result, Returned example_result, Returned example_result]) =
        (example_refreshed, replicate 3 (Returned example_result))"
proof -
  have f: "\<not> m_ipUpdateInProgress example_manager"
    by code_simp
  have u: "updatePublicIPs fallback_services example_manager = Some (example_result, example_refreshed)"
    by code_simp
  have a: "invoked_in_flight fallback_services example_schedule
        (step fallback_services Invoke (example_manager, []))"
    by code_simp
  have r: "run fallback_services (Invoke # example_schedule) (example_manager, []) =
        (example_refreshed, [Returned example_result, Returned example_result, Returned example_result])"
    by code_simp
  have l: "length [Returned example_result, Returned example_result, Returned example_result] = 3"
    by simp
  from single_flight [OF f u a r] f u a r show ?thesis
    unfolding l by (intro conjI) (simp_all only: simp_thms)
qed

end
